theory Spec2Isabelle
  imports Main
begin

section \<open>Employee leave management: the Flask application \<open>app.py\<close>\<close>

text \<open>
  The application keeps two tables, \<open>users\<close> and \<open>leaves\<close>, in a SQLite database and
  serves a handful of routes. The model below follows \<open>app.py\<close> function by function:
  a table is the list of its rows, a query with \<open>one=True\<close> returns the first matching
  row or nothing, an \<open>UPDATE ... WHERE id = ?\<close> rewrites every row with that id, a route
  takes the request, the session and the database and returns the response, the flashed
  messages and the new database and session. A Python exception that leaves the route is
  the \<open>Inl\<close> branch of the result.
\<close>

subsection \<open>Exceptions\<close>

datatype fault =
    TypeError      \<comment> \<open>subscripting \<open>None\<close>, or \<open>parse_date(None)\<close>\<close>
  | ParserError    \<comment> \<open>\<open>dateutil\<close> could not read the string as a date\<close>
  | IntegrityError \<comment> \<open>the database refuses a row that breaks a constraint of its table\<close>

subsection \<open>Calendar dates\<close>

text \<open>
  \<open>datetime.date\<close> of the Python standard library: subtraction of two dates is the
  difference of their proleptic Gregorian ordinals (\<open>date.toordinal\<close>).
\<close>

record date =
  year :: int
  month :: int
  day :: int

definition is_leap :: "int \<Rightarrow> bool" where
  "is_leap y = (y mod 4 = 0 \<and> (y mod 100 \<noteq> 0 \<or> y mod 400 = 0))"

definition days_before_year :: "int \<Rightarrow> int" where
  "days_before_year y =
     (let y1 = y - 1 in y1 * 365 + y1 div 4 - y1 div 100 + y1 div 400)"

definition days_in_month :: "int \<Rightarrow> int \<Rightarrow> int" where
  "days_in_month y m =
     (if m = 2 then (if is_leap y then 29 else 28)
      else if m = 4 \<or> m = 6 \<or> m = 9 \<or> m = 11 then 30
      else 31)"

definition days_before_month :: "int \<Rightarrow> int \<Rightarrow> int" where
  "days_before_month y m =
     [0, 31, 59, 90, 120, 151, 181, 212, 243, 273, 304, 334] ! nat (m - 1)
       + (if m > 2 \<and> is_leap y then 1 else 0)"

definition toordinal :: "date \<Rightarrow> int" where
  "toordinal d = days_before_year (year d) + days_before_month (year d) (month d) + day d"

definition valid_date :: "date \<Rightarrow> bool" where
  "valid_date d =
     (1 \<le> year d \<and> year d \<le> 9999 \<and> 1 \<le> month d \<and> month d \<le> 12
        \<and> 1 \<le> day d \<and> day d \<le> days_in_month (year d) (month d))"

text \<open>Python compares dates by year, then month, then day.\<close>

definition date_le :: "date \<Rightarrow> date \<Rightarrow> bool" where
  "date_le a b =
     (year a < year b
        \<or> (year a = year b \<and> (month a < month b \<or> (month a = month b \<and> day a \<le> day b))))"

subsection \<open>Reading a canonical date string\<close>

text \<open>
  \<open>dateutil.parser.parse\<close> is a library outside the repository and accepts many
  formats. The routes take it as a parameter (\<open>parse_date\<close> of the environment below).
  \<open>parse_iso\<close> is what it returns on the canonical ten-character form \<open>YYYY-MM-DD\<close>
  that the application asks for; it is used for the concrete examples only.
\<close>

definition digit_val :: "char \<Rightarrow> int option" where
  "digit_val c = map_of (zip ''0123456789'' [0, 1, 2, 3, 4, 5, 6, 7, 8, 9]) c"

fun number_of_digits :: "int \<Rightarrow> string \<Rightarrow> int option" where
  "number_of_digits acc [] = Some acc"
| "number_of_digits acc (c # cs) =
     (case digit_val c of
        None \<Rightarrow> None
      | Some v \<Rightarrow> number_of_digits (acc * 10 + v) cs)"

definition parse_iso :: "string \<Rightarrow> date option" where
  "parse_iso s =
     (if length s = 10 \<and> s ! 4 = CHR ''-'' \<and> s ! 7 = CHR ''-'' then
        (case (number_of_digits 0 (take 4 s),
               number_of_digits 0 (take 2 (drop 5 s)),
               number_of_digits 0 (drop 8 s)) of
           (Some y, Some m, Some d) \<Rightarrow>
             (let r = \<lparr>year = y, month = m, day = d\<rparr>
              in if valid_date r then Some r else None)
         | _ \<Rightarrow> None)
      else None)"

subsection \<open>Strings\<close>

text \<open>
  A character is a code point below 256, so a form field is text of the Latin-1 range;
  text with code points beyond it is outside the string type. On this range
  \<open>str.strip\<close> removes the characters for which \<open>str.isspace\<close> holds (tab to carriage
  return, the separators 0x1C to 0x1F, the space, NEL 0x85 and the no-break space 0xA0),
  and \<open>str.lower\<close> moves A to Z and the capitals 0xC0 to 0xDE (the multiplication sign
  0xD7 apart) up by 32.
\<close>

definition is_space :: "char \<Rightarrow> bool" where
  "is_space c = (c \<in> set [CHR '' '', CHR 0x09, CHR 0x0A, CHR 0x0B, CHR 0x0C, CHR 0x0D,
                          CHR 0x1C, CHR 0x1D, CHR 0x1E, CHR 0x1F, CHR 0x85, CHR 0xA0])"

definition strip :: "string \<Rightarrow> string" where
  "strip s = rev (dropWhile is_space (rev (dropWhile is_space s)))"

definition lower_char :: "char \<Rightarrow> char" where
  "lower_char c =
     (let n = (of_char c :: nat)
      in if (65 \<le> n \<and> n \<le> 90) \<or> (192 \<le> n \<and> n \<le> 222 \<and> n \<noteq> 215)
         then char_of (n + 32) else c)"

definition lower :: "string \<Rightarrow> string" where
  "lower s = map lower_char s"

text \<open>\<open>str\<close> of a Python integer, as an f-string prints it.\<close>

fun str_nat :: "nat \<Rightarrow> string" where
  "str_nat n =
     (if n < 10 then [''0123456789'' ! n]
      else str_nat (n div 10) @ [''0123456789'' ! (n mod 10)])"

declare str_nat.simps [simp del]

definition str_int :: "int \<Rightarrow> string" where
  "str_int i = (if i < 0 then CHR ''-'' # str_nat (nat (- i)) else str_nat (nat i))"

subsection \<open>The day count\<close>

text \<open>
  \<open>calc_days\<close>: both strings are parsed, start first; the inclusive difference is
  clamped at zero. A missing form field reaches \<open>parse_date\<close> as \<open>None\<close> and raises.
\<close>

definition calc_days ::
  "(string \<Rightarrow> date option) \<Rightarrow> string option \<Rightarrow> string option \<Rightarrow> fault + int" where
  "calc_days parse start_iso end_iso =
     (case start_iso of
        None \<Rightarrow> Inl TypeError
      | Some s0 \<Rightarrow>
     (case parse s0 of
        None \<Rightarrow> Inl ParserError
      | Some s \<Rightarrow>
     (case end_iso of
        None \<Rightarrow> Inl TypeError
      | Some e0 \<Rightarrow>
     (case parse e0 of
        None \<Rightarrow> Inl ParserError
      | Some e \<Rightarrow>
          (let delta = (toordinal e - toordinal s) + 1
           in Inr (max 0 delta))))))"

subsection \<open>The database\<close>

record user =
  u_id :: int
  u_name :: string
  u_email :: string
  password_hash :: string
  role :: string
  leave_balance :: int

record leave =
  l_id :: int
  employee_id :: int
  start_date :: "string option"
  end_date :: "string option"
  days :: int
  leave_type :: string
  reason :: string
  applied_at :: string
  status :: string
  reviewed_by :: "int option"
  reviewed_at :: "string option"
  review_comment :: "string option"

record database =
  users :: "user list"
  leaves :: "leave list"

text \<open>\<open>SELECT * FROM users WHERE id = ?\<close> with \<open>one=True\<close>.\<close>

definition user_by_id :: "database \<Rightarrow> int \<Rightarrow> user option" where
  "user_by_id db i = find (\<lambda>u. u_id u = i) (users db)"

definition user_by_email :: "database \<Rightarrow> string \<Rightarrow> user option" where
  "user_by_email db e = find (\<lambda>u. u_email u = e) (users db)"

definition leave_by_id :: "database \<Rightarrow> int \<Rightarrow> leave option" where
  "leave_by_id db i = find (\<lambda>l. l_id l = i) (leaves db)"

text \<open>
  The query of \<open>view_leave\<close>: \<open>leaves\<close> joined with \<open>users\<close> on the owner, restricted to
  one leave id; the first row of the join.
\<close>

definition leave_with_owner :: "database \<Rightarrow> int \<Rightarrow> (leave \<times> user) option" where
  "leave_with_owner db i =
     (case concat (map (\<lambda>l. map (\<lambda>u. (l, u)) (filter (\<lambda>u. u_id u = employee_id l) (users db)))
                       (filter (\<lambda>l. l_id l = i) (leaves db))) of
        [] \<Rightarrow> None
      | r # _ \<Rightarrow> Some r)"

text \<open>The key SQLite gives a new row: one more than the largest in use, 1 in an empty table.\<close>

definition next_id :: "int list \<Rightarrow> int" where
  "next_id ids = fold max ids 0 + 1"

text \<open>
  Modelled from the spec: \<open>schema.sql\<close> is not among the sources. A row inserted without
  a status starts as \<open>Pending\<close> with no reviewer, review time or review comment (spec 3
  and 4.3, step 3 of submit). The balance a new user starts with is policy-defined and
  is a parameter (\<open>default_leave_balance\<close> below).
\<close>

definition default_status :: string where
  "default_status = ''Pending''"

text \<open>
  Modelled from the spec: the declaration of the \<open>users\<close> table in \<open>schema.sql\<close> is not
  among the sources. The data model gives a user's role the two values \<open>employee\<close> and
  \<open>hr\<close> (spec 3, User; spec 6, Authenticator); the table admits a row with one of these
  and refuses any other, so that the \<open>INSERT\<close> raises. The balance has no such
  constraint: its invariant is enforced only through the check before the debit (spec 3).
\<close>

definition role_allowed :: "string \<Rightarrow> bool" where
  "role_allowed r = (r = ''employee'' \<or> r = ''hr'')"

text \<open>\<open>INSERT INTO users (name,email,password_hash,role) VALUES (?, ?, ?, ?)\<close>\<close>

definition insert_user ::
  "int \<Rightarrow> string \<Rightarrow> string \<Rightarrow> string \<Rightarrow> string \<Rightarrow> database \<Rightarrow> fault + int \<times> database" where
  "insert_user bal n e h r db =
     (if \<not> role_allowed r then Inl IntegrityError
      else
        (let i = next_id (map u_id (users db));
             row = \<lparr>u_id = i, u_name = n, u_email = e, password_hash = h, role = r,
                    leave_balance = bal\<rparr>
         in Inr (i, db\<lparr>users := users db @ [row]\<rparr>)))"

definition insert_leave ::
  "int \<Rightarrow> string option \<Rightarrow> string option \<Rightarrow> int \<Rightarrow> string \<Rightarrow> string \<Rightarrow> string
     \<Rightarrow> database \<Rightarrow> database" where
  "insert_leave emp s e d ty rs at db =
     (let row = \<lparr>l_id = next_id (map l_id (leaves db)), employee_id = emp, start_date = s,
                 end_date = e, days = d, leave_type = ty, reason = rs, applied_at = at,
                 status = default_status, reviewed_by = None, reviewed_at = None,
                 review_comment = None\<rparr>
      in db\<lparr>leaves := leaves db @ [row]\<rparr>)"

text \<open>\<open>UPDATE users SET leave_balance = leave_balance - ? WHERE id = ?\<close>\<close>

definition debit_balance :: "int \<Rightarrow> int \<Rightarrow> database \<Rightarrow> database" where
  "debit_balance d i db =
     db\<lparr>users := map (\<lambda>u. if u_id u = i then u\<lparr>leave_balance := leave_balance u - d\<rparr> else u)
                      (users db)\<rparr>"

text \<open>\<open>UPDATE leaves SET status=?, reviewed_by=?, reviewed_at=?, review_comment=? WHERE id=?\<close>\<close>

definition set_review :: "string \<Rightarrow> int \<Rightarrow> string \<Rightarrow> string \<Rightarrow> int \<Rightarrow> database \<Rightarrow> database" where
  "set_review st by at c i db =
     db\<lparr>leaves := map (\<lambda>l. if l_id l = i
                            then l\<lparr>status := st, reviewed_by := Some by, reviewed_at := Some at,
                                   review_comment := Some c\<rparr>
                            else l)
                       (leaves db)\<rparr>"

subsection \<open>Requests, sessions, responses\<close>

record request =
  req_method :: string
  form :: "(string \<times> string) list"

definition form_get :: "request \<Rightarrow> string \<Rightarrow> string option" where
  "form_get rq k = map_of (form rq) k"

definition form_get_default :: "request \<Rightarrow> string \<Rightarrow> string \<Rightarrow> string" where
  "form_get_default rq k dflt = (case map_of (form rq) k of None \<Rightarrow> dflt | Some v \<Rightarrow> v)"

record session =
  sess_user_id :: "int option"
  sess_role :: "string option"

datatype response =
    Redirect string          \<comment> \<open>\<open>redirect(url_for(endpoint))\<close>\<close>
  | Render string            \<comment> \<open>\<open>render_template(name, ...)\<close>\<close>
  | Json_error string nat    \<comment> \<open>\<open>jsonify(status="error", message=...)\<close> with an HTTP status\<close>

record outcome =
  resp :: response
  flashes :: "(string \<times> string) list"
  db_after :: database
  session_after :: session

definition reply :: "response \<Rightarrow> (string \<times> string) list \<Rightarrow> database \<Rightarrow> session \<Rightarrow> fault + outcome" where
  "reply r fl db ss = Inr \<lparr>resp = r, flashes = fl, db_after = db, session_after = ss\<rparr>"

text \<open>What the application takes from outside: the date parser, the clock, the hash.\<close>

record env =
  parse_date :: "string \<Rightarrow> date option"
  iso_now :: string
  generate_password_hash :: "string \<Rightarrow> string"
  default_leave_balance :: int

subsection \<open>Auth helpers\<close>

text \<open>\<open>if not uid\<close> is true for a missing id and for the id 0.\<close>

definition current_user :: "session \<Rightarrow> database \<Rightarrow> user option" where
  "current_user ss db =
     (case sess_user_id ss of
        None \<Rightarrow> None
      | Some uid \<Rightarrow> if uid = 0 then None else user_by_id db uid)"

definition login_user :: "user \<Rightarrow> session \<Rightarrow> session" where
  "login_user row ss = ss\<lparr>sess_user_id := Some (u_id row), sess_role := Some (role row)\<rparr>"

subsection \<open>Routes\<close>

text \<open>
  \<open>/register\<close>: the role is taken from the form as it is, \<open>employee\<close> when absent, and
  handed to the \<open>INSERT\<close>; the route itself compares it with nothing. An exception of the
  \<open>INSERT\<close> is not caught and leaves the route before the commit.
\<close>

definition register :: "env \<Rightarrow> request \<Rightarrow> session \<Rightarrow> database \<Rightarrow> fault + outcome" where
  "register ev rq ss db =
     (if req_method rq = ''POST'' then
        (let name = strip (form_get_default rq ''name'' '''');
             email = lower (strip (form_get_default rq ''email'' ''''));
             password = form_get_default rq ''password'' '''';
             rl = form_get_default rq ''role'' ''employee''
         in if name = [] \<or> email = [] \<or> password = [] then
              reply (Redirect ''register'') [(''Fill all required fields.'', ''warning'')] db ss
            else
              (case user_by_email db email of
                 Some existing \<Rightarrow>
                   reply (Redirect ''register'') [(''Email already registered.'', ''danger'')] db ss
               | None \<Rightarrow>
                   (let pw_hash = generate_password_hash ev password
                    in (case insert_user (default_leave_balance ev) name email pw_hash rl db of
                          Inl exc \<Rightarrow> Inl exc
                        | Inr (lastrowid, db') \<Rightarrow>
                            (case user_by_id db' lastrowid of
                               None \<Rightarrow> Inl TypeError
                             | Some u \<Rightarrow>
                                 reply (Redirect ''index'')
                                   [(''Registered and logged in.'', ''success'')]
                                   db' (login_user u ss))))))
      else reply (Render ''register.html'') [] db ss)"

text \<open>\<open>/employee/apply\<close>\<close>

definition apply_leave :: "env \<Rightarrow> request \<Rightarrow> session \<Rightarrow> database \<Rightarrow> fault + outcome" where
  "apply_leave ev rq ss db =
     (case current_user ss db of
        None \<Rightarrow> reply (Redirect ''index'') [(''Access denied.'', ''danger'')] db ss
      | Some u \<Rightarrow>
          if role u \<noteq> ''employee'' then
            reply (Redirect ''index'') [(''Access denied.'', ''danger'')] db ss
          else if req_method rq = ''POST'' then
            (let start_s = form_get rq ''start_date'';
                 end_s = form_get rq ''end_date'';
                 ty = form_get_default rq ''leave_type'' ''Vacation'';
                 rs = strip (form_get_default rq ''reason'' '''')
             in (case calc_days (parse_date ev) start_s end_s of
                   Inl exc \<Rightarrow>
                     reply (Redirect ''apply_leave'')
                       [(''Invalid date format. Use YYYY-MM-DD.'', ''danger'')] db ss
                 | Inr d \<Rightarrow>
                     (case user_by_id db (u_id u) of
                        None \<Rightarrow> Inl TypeError
                      | Some user_db \<Rightarrow>
                          if d > leave_balance user_db then
                            reply (Redirect ''apply_leave'')
                              [(''Insufficient leave balance. You have ''
                                  @ str_int (leave_balance user_db) @ '' days.'', ''danger'')] db ss
                          else
                            reply (Redirect ''employee_dashboard'')
                              [(''Leave application submitted.'', ''success'')]
                              (insert_leave (u_id u) start_s end_s d ty rs (iso_now ev) db)
                              ss)))
          else reply (Render ''apply_leave.html'') [] db ss)"

text \<open>
  \<open>/leave/<id>\<close>: the current user is read first, then the leave; the role test
  subscripts the user without looking whether there is one.
\<close>

definition view_leave :: "int \<Rightarrow> session \<Rightarrow> database \<Rightarrow> fault + outcome" where
  "view_leave leave_id ss db =
     (let cu = current_user ss db
      in (case leave_with_owner db leave_id of
            None \<Rightarrow> reply (Redirect ''index'') [(''Leave not found.'', ''danger'')] db ss
          | Some (l, owner) \<Rightarrow>
              (case cu of
                 None \<Rightarrow> Inl TypeError
               | Some u \<Rightarrow>
                   if role u \<noteq> ''hr'' \<and> u_id u \<noteq> employee_id l then
                     reply (Redirect ''index'') [(''Access denied.'', ''danger'')] db ss
                   else reply (Render ''view_leave.html'') [] db ss)))"

text \<open>\<open>/hr/review/<id>\<close>\<close>

definition review_leave :: "env \<Rightarrow> int \<Rightarrow> request \<Rightarrow> session \<Rightarrow> database \<Rightarrow> fault + outcome" where
  "review_leave ev leave_id rq ss db =
     (case current_user ss db of
        None \<Rightarrow> reply (Json_error ''Access denied'' 403) [] db ss
      | Some u \<Rightarrow>
          if role u \<noteq> ''hr'' then reply (Json_error ''Access denied'' 403) [] db ss
          else
            (let action = form_get rq ''action'';
                 comment = strip (form_get_default rq ''comment'' '''')
             in (case leave_by_id db leave_id of
                   None \<Rightarrow>
                     reply (Redirect ''hr_dashboard'') [(''Leave not found.'', ''danger'')] db ss
                 | Some l \<Rightarrow>
                     if action = Some ''approve'' then
                       (case user_by_id db (employee_id l) of
                          None \<Rightarrow> Inl TypeError
                        | Some emp \<Rightarrow>
                            if leave_balance emp < days l then
                              reply (Redirect ''hr_dashboard'')
                                [(''Employee does not have enough balance.'', ''danger'')] db ss
                            else
                              reply (Redirect ''hr_dashboard'')
                                [(''Leave approved and balance updated.'', ''success'')]
                                (set_review ''Approved'' (u_id u) (iso_now ev) comment leave_id
                                   (debit_balance (days l) (u_id emp) db))
                                ss)
                     else if action = Some ''reject'' then
                       reply (Redirect ''hr_dashboard'') [(''Leave rejected.'', ''info'')]
                         (set_review ''Rejected'' (u_id u) (iso_now ev) comment leave_id db) ss
                     else
                       reply (Redirect ''hr_dashboard'') [(''Unknown action.'', ''warning'')] db ss)))"

subsection \<open>The review route, cut between its queries and its updates\<close>

text \<open>
  \<open>review_leave\<close> first reads (the current user, the leave, on approve the owner's row
  and the comparison of balance and days) and then, in separate statements, writes (the
  two \<open>UPDATE\<close>s and the commit). Nothing in the route opens a transaction around the
  two parts or reads anything again before writing: the debit is
  \<open>leave_balance = leave_balance - ?\<close> on the row as it is when the \<open>UPDATE\<close> runs.
  \<open>review_reads\<close> is the first part and returns what the route holds when it reaches
  the first \<open>UPDATE\<close>; \<open>review_writes\<close> is the second part, run on the database as it
  is by then.
\<close>

datatype pending =
    Finished response "(string \<times> string) list"
      \<comment> \<open>the route returns without writing\<close>
  | Approve_write int string int int
      \<comment> \<open>reviewer id, comment, \<open>l['days']\<close>, \<open>emp['id']\<close>\<close>
  | Reject_write int string
      \<comment> \<open>reviewer id, comment\<close>

definition review_reads :: "int \<Rightarrow> request \<Rightarrow> session \<Rightarrow> database \<Rightarrow> fault + pending" where
  "review_reads leave_id rq ss db =
     (case current_user ss db of
        None \<Rightarrow> Inr (Finished (Json_error ''Access denied'' 403) [])
      | Some u \<Rightarrow>
          if role u \<noteq> ''hr'' then Inr (Finished (Json_error ''Access denied'' 403) [])
          else
            (let action = form_get rq ''action'';
                 comment = strip (form_get_default rq ''comment'' '''')
             in (case leave_by_id db leave_id of
                   None \<Rightarrow>
                     Inr (Finished (Redirect ''hr_dashboard'')
                            [(''Leave not found.'', ''danger'')])
                 | Some l \<Rightarrow>
                     if action = Some ''approve'' then
                       (case user_by_id db (employee_id l) of
                          None \<Rightarrow> Inl TypeError
                        | Some emp \<Rightarrow>
                            if leave_balance emp < days l then
                              Inr (Finished (Redirect ''hr_dashboard'')
                                     [(''Employee does not have enough balance.'', ''danger'')])
                            else Inr (Approve_write (u_id u) comment (days l) (u_id emp)))
                     else if action = Some ''reject'' then Inr (Reject_write (u_id u) comment)
                     else
                       Inr (Finished (Redirect ''hr_dashboard'')
                              [(''Unknown action.'', ''warning'')]))))"

definition review_writes :: "env \<Rightarrow> int \<Rightarrow> pending \<Rightarrow> session \<Rightarrow> database \<Rightarrow> outcome" where
  "review_writes ev leave_id p ss db =
     (case p of
        Finished r fl \<Rightarrow> \<lparr>resp = r, flashes = fl, db_after = db, session_after = ss\<rparr>
      | Approve_write reviewer comment d emp_id \<Rightarrow>
          \<lparr>resp = Redirect ''hr_dashboard'',
           flashes = [(''Leave approved and balance updated.'', ''success'')],
           db_after = set_review ''Approved'' reviewer (iso_now ev) comment leave_id
                        (debit_balance d emp_id db),
           session_after = ss\<rparr>
      | Reject_write reviewer comment \<Rightarrow>
          \<lparr>resp = Redirect ''hr_dashboard'', flashes = [(''Leave rejected.'', ''info'')],
           db_after = set_review ''Rejected'' reviewer (iso_now ev) comment leave_id db,
           session_after = ss\<rparr>)"

text \<open>The database a request leaves behind: an exception commits nothing.\<close>

definition committed :: "fault + outcome \<Rightarrow> database \<Rightarrow> database" where
  "committed r db = (case r of Inl exc \<Rightarrow> db | Inr out \<Rightarrow> db_after out)"

text \<open>
  Two review requests. \<open>one_after_other\<close>: the second starts when the first has
  returned. \<open>reads_before_writes\<close>: both have done their reads on the same database
  before the first writes; then the first writes and commits, then the second.
\<close>

definition one_after_other ::
  "env \<Rightarrow> int \<Rightarrow> request \<Rightarrow> session \<Rightarrow> int \<Rightarrow> request \<Rightarrow> session \<Rightarrow> database
     \<Rightarrow> (fault + outcome) \<times> (fault + outcome) \<times> database" where
  "one_after_other ev i1 rq1 ss1 i2 rq2 ss2 db =
     (let r1 = review_leave ev i1 rq1 ss1 db;
          db1 = committed r1 db;
          r2 = review_leave ev i2 rq2 ss2 db1
      in (r1, r2, committed r2 db1))"

definition reads_before_writes ::
  "env \<Rightarrow> int \<Rightarrow> request \<Rightarrow> session \<Rightarrow> int \<Rightarrow> request \<Rightarrow> session \<Rightarrow> database
     \<Rightarrow> (fault + outcome) \<times> (fault + outcome) \<times> database" where
  "reads_before_writes ev i1 rq1 ss1 i2 rq2 ss2 db =
     (let p1 = review_reads i1 rq1 ss1 db;
          p2 = review_reads i2 rq2 ss2 db;
          r1 = (case p1 of Inl exc \<Rightarrow> Inl exc | Inr p \<Rightarrow> Inr (review_writes ev i1 p ss1 db));
          db1 = committed r1 db;
          r2 = (case p2 of Inl exc \<Rightarrow> Inl exc | Inr p \<Rightarrow> Inr (review_writes ev i2 p ss2 db1))
      in (r1, r2, committed r2 db1))"

definition approved :: "fault + outcome \<Rightarrow> bool" where
  "approved r =
     (case r of
        Inl exc \<Rightarrow> False
      | Inr out \<Rightarrow> flashes out = [(''Leave approved and balance updated.'', ''success'')])"

definition rejected :: "fault + outcome \<Rightarrow> bool" where
  "rejected r =
     (case r of
        Inl exc \<Rightarrow> False
      | Inr out \<Rightarrow> flashes out = [(''Leave rejected.'', ''info'')])"

subsection \<open>Sequences of workflow operations\<close>

text \<open>
  One inbound action at a time: a submission or a review, each with its own request and
  session. A request that ends in an exception commits nothing.
\<close>

datatype operation =
    Submit request session
  | Review int request session

definition perform :: "env \<Rightarrow> operation \<Rightarrow> database \<Rightarrow> database" where
  "perform ev op db =
     (case (case op of
              Submit rq ss \<Rightarrow> apply_leave ev rq ss db
            | Review i rq ss \<Rightarrow> review_leave ev i rq ss db) of
        Inl exc \<Rightarrow> db
      | Inr out \<Rightarrow> db_after out)"

fun run :: "env \<Rightarrow> operation list \<Rightarrow> database \<Rightarrow> database" where
  "run ev [] db = db"
| "run ev (op # ops) db = run ev ops (perform ev op db)"

text \<open>The primary key: no two rows of \<open>users\<close> share an id.\<close>

definition user_ids_distinct :: "database \<Rightarrow> bool" where
  "user_ids_distinct db = distinct (map u_id (users db))"

definition balances_nonneg :: "database \<Rightarrow> bool" where
  "balances_nonneg db = list_all (\<lambda>u. 0 \<le> leave_balance u) (users db)"

definition days_nonneg :: "database \<Rightarrow> bool" where
  "days_nonneg db = list_all (\<lambda>l. 0 \<le> days l) (leaves db)"




definition roles_valid :: "database \<Rightarrow> bool" where
  "roles_valid db = list_all (\<lambda>u. role u = ''employee'' \<or> role u = ''hr'') (users db)"

subsection \<open>Scenarios\<close>

text \<open>
  Concrete data for the examples: an HR reviewer (id 1), an employee (id 2) with ten days
  of leave, and a five-day request of that employee.
\<close>

definition demo_env :: env where
  "demo_env = \<lparr>parse_date = parse_iso, iso_now = ''2024-02-20T09:00:00'',
                generate_password_hash = (\<lambda>p. ''hash:'' @ p), default_leave_balance = 20\<rparr>"

definition hr_row :: user where
  "hr_row = \<lparr>u_id = 1, u_name = ''Hana'', u_email = ''hana@example.com'',
              password_hash = ''hash:h'', role = ''hr'', leave_balance = 20\<rparr>"

definition emp_row :: user where
  "emp_row = \<lparr>u_id = 2, u_name = ''Emil'', u_email = ''emil@example.com'',
               password_hash = ''hash:e'', role = ''employee'', leave_balance = 10\<rparr>"

definition pending_row :: leave where
  "pending_row = \<lparr>l_id = 1, employee_id = 2, start_date = Some ''2024-03-01'',
                   end_date = Some ''2024-03-05'', days = 5, leave_type = ''Vacation'',
                   reason = ''trip'', applied_at = ''2024-02-19T08:00:00'',
                   status = ''Pending'', reviewed_by = None, reviewed_at = None,
                   review_comment = None\<rparr>"

definition approved_row :: leave where
  "approved_row = pending_row\<lparr>status := ''Approved'', reviewed_by := Some 1,
                               reviewed_at := Some ''2024-02-19T12:00:00'',
                               review_comment := Some ''enjoy''\<rparr>"

definition demo_db :: database where
  "demo_db = \<lparr>users = [hr_row, emp_row], leaves = [pending_row]\<rparr>"

text \<open>The same request after the employee's balance has dropped to three days.\<close>

definition low_db :: database where
  "low_db = \<lparr>users = [hr_row, emp_row\<lparr>leave_balance := 3\<rparr>], leaves = [pending_row]\<rparr>"

text \<open>The request already approved once: the balance stands at five.\<close>

definition approved_db :: database where
  "approved_db = \<lparr>users = [hr_row, emp_row\<lparr>leave_balance := 5\<rparr>], leaves = [approved_row]\<rparr>"


definition hr_session :: session where
  "hr_session = \<lparr>sess_user_id = Some 1, sess_role = Some ''hr''\<rparr>"

definition emp_session :: session where
  "emp_session = \<lparr>sess_user_id = Some 2, sess_role = Some ''employee''\<rparr>"

definition no_session :: session where
  "no_session = \<lparr>sess_user_id = None, sess_role = None\<rparr>"

definition approve_request :: request where
  "approve_request =
     \<lparr>req_method = ''POST'', form = [(''action'', ''approve''), (''comment'', '' ok '')]\<rparr>"

definition reject_request :: request where
  "reject_request =
     \<lparr>req_method = ''POST'', form = [(''action'', ''reject''), (''comment'', ''no'')]\<rparr>"

definition five_day_request :: request where
  "five_day_request =
     \<lparr>req_method = ''POST'',
      form = [(''start_date'', ''2024-03-01''), (''end_date'', ''2024-03-05''),
              (''leave_type'', ''Vacation''), (''reason'', ''trip'')]\<rparr>"

definition inverted_request :: request where
  "inverted_request =
     \<lparr>req_method = ''POST'',
      form = [(''start_date'', ''2024-03-05''), (''end_date'', ''2024-03-01''),
              (''leave_type'', ''Vacation''), (''reason'', ''trip'')]\<rparr>"

definition garbled_request :: request where
  "garbled_request =
     \<lparr>req_method = ''POST'',
      form = [(''start_date'', ''next week''), (''end_date'', ''2024-03-01'')]\<rparr>"




text \<open>A second request of the employee, seven days, next to the five-day one.\<close>

definition second_row :: leave where
  "second_row = \<lparr>l_id = 2, employee_id = 2, start_date = Some ''2024-04-01'',
                  end_date = Some ''2024-04-07'', days = 7, leave_type = ''Vacation'',
                  reason = ''visit'', applied_at = ''2024-02-19T08:30:00'',
                  status = ''Pending'', reviewed_by = None, reviewed_at = None,
                  review_comment = None\<rparr>"

definition two_requests_db :: database where
  "two_requests_db = \<lparr>users = [hr_row, emp_row], leaves = [pending_row, second_row]\<rparr>"

section \<open>Properties\<close>

subsection \<open>Queries and updates\<close>

lemma find_holds: "find P xs = Some x \<Longrightarrow> P x \<and> x \<in> set xs"
  by (induction xs) (auto split: if_splits)

lemma find_filter_head: "find P xs = Some x \<Longrightarrow> \<exists>ys. filter P xs = x # ys"
  by (induction xs) (auto split: if_splits)

lemma find_map_keyed:
  assumes "\<And>x. key (f x) = key x"
  shows "find (\<lambda>x. key x = i) (map (\<lambda>x. if key x = j then f x else x) xs)
           = map_option (\<lambda>x. if key x = j then f x else x) (find (\<lambda>x. key x = i) xs)"
  by (induction xs) (auto simp: assms)

lemma current_user_row:
  "current_user ss db = Some u \<Longrightarrow> user_by_id db (u_id u) = Some u"
  unfolding current_user_def user_by_id_def
  by (auto split: option.splits if_splits dest: find_holds)

lemma calc_days_nonneg: "calc_days p s e = Inr d \<Longrightarrow> 0 \<le> d"
  by (auto simp: calc_days_def Let_def split: option.splits)

lemma leave_with_owner_found:
  assumes "leave_by_id db i = Some l" and "user_by_id db (employee_id l) = Some owner"
  shows "leave_with_owner db i = Some (l, owner)"
proof -
  from assms(1) obtain ls where ls: "filter (\<lambda>l. l_id l = i) (leaves db) = l # ls"
    unfolding leave_by_id_def by (blast dest: find_filter_head)
  from assms(2) obtain us
    where us: "filter (\<lambda>u. u_id u = employee_id l) (users db) = owner # us"
    unfolding user_by_id_def by (blast dest: find_filter_head)
  show ?thesis unfolding leave_with_owner_def by (simp add: ls us)
qed

lemma user_by_id_debit:
  "user_by_id (debit_balance d j db) i
     = map_option (\<lambda>u. if u_id u = j then u\<lparr>leave_balance := leave_balance u - d\<rparr> else u)
         (user_by_id db i)"
  unfolding user_by_id_def debit_balance_def
  using find_map_keyed [where key = u_id
      and f = "\<lambda>u. u\<lparr>leave_balance := leave_balance u - d\<rparr>"]
  by simp

lemma user_by_id_set_review [simp]:
  "user_by_id (set_review st b at c j db) i = user_by_id db i"
  by (simp add: user_by_id_def set_review_def)

lemma leave_by_id_debit [simp]:
  "leave_by_id (debit_balance d j db) i = leave_by_id db i"
  by (simp add: leave_by_id_def debit_balance_def)

lemma leave_by_id_set_review:
  "leave_by_id (set_review st b at c j db) i
     = map_option (\<lambda>l. if l_id l = j
                        then l\<lparr>status := st, reviewed_by := Some b, reviewed_at := Some at,
                               review_comment := Some c\<rparr>
                        else l)
         (leave_by_id db i)"
  unfolding leave_by_id_def set_review_def
  using find_map_keyed [where key = l_id
      and f = "\<lambda>l. l\<lparr>status := st, reviewed_by := Some b, reviewed_at := Some at,
                       review_comment := Some c\<rparr>"]
  by simp

subsection \<open>Approval with too little balance\<close>

text \<open>
  Claim C2. An HR reviewer approves a Pending request whose owner's balance, as read
  at review time, is below the request's days: the route flashes that the employee does
  not have enough balance and returns with the database exactly as it was, so the
  request is still Pending, none of its fields has changed and the balance is untouched.
\<close>

theorem approve_insufficient_aborts:
  assumes "current_user ss db = Some u" and "role u = ''hr''"
    and "form_get rq ''action'' = Some ''approve''"
    and "leave_by_id db i = Some l" and "status l = ''Pending''"
    and "user_by_id db (employee_id l) = Some emp"
    and "leave_balance emp < days l"
  shows "review_leave ev i rq ss db =
           Inr \<lparr>resp = Redirect ''hr_dashboard'',
                flashes = [(''Employee does not have enough balance.'', ''danger'')],
                db_after = db, session_after = ss\<rparr>"
  using assms by (simp add: review_leave_def reply_def Let_def)

theorem approve_insufficient_aborts_witness:
  "current_user hr_session low_db = Some hr_row \<and> role hr_row = ''hr''
   \<and> form_get approve_request ''action'' = Some ''approve''
   \<and> leave_by_id low_db 1 = Some pending_row \<and> status pending_row = ''Pending''
   \<and> user_by_id low_db (employee_id pending_row) = Some (emp_row\<lparr>leave_balance := 3\<rparr>)
   \<and> leave_balance (emp_row\<lparr>leave_balance := 3\<rparr>) < days pending_row
   \<and> review_leave demo_env 1 approve_request hr_session low_db =
           Inr \<lparr>resp = Redirect ''hr_dashboard'',
                flashes = [(''Employee does not have enough balance.'', ''danger'')],
                db_after = low_db, session_after = hr_session\<rparr>"
proof -
  have h1: "current_user hr_session low_db = Some hr_row" by code_simp
  have h2: "role hr_row = ''hr''" by code_simp
  have h3: "form_get approve_request ''action'' = Some ''approve''" by code_simp
  have h4: "leave_by_id low_db 1 = Some pending_row" by code_simp
  have h5: "status pending_row = ''Pending''" by code_simp
  have h6: "user_by_id low_db (employee_id pending_row) = Some (emp_row\<lparr>leave_balance := 3\<rparr>)"
    by code_simp
  have h7: "leave_balance (emp_row\<lparr>leave_balance := 3\<rparr>) < days pending_row" by code_simp
  show ?thesis
    using approve_insufficient_aborts [OF h1 h2 h3 h4 h5 h6 h7, of demo_env]
      h1 h2 h3 h4 h5 h6 h7
    by simp
qed

subsection \<open>Submission beyond the balance\<close>

text \<open>
  Claim C5. An employee submits dates whose day count exceeds the balance read from the
  database in the same request: the route flashes the insufficient-balance message, which
  carries that balance, inserts no leave and leaves every balance as it was (the
  database is returned unchanged).
\<close>

theorem submit_insufficient_balance:
  assumes "current_user ss db = Some u" and "role u = ''employee''"
    and "req_method rq = ''POST''"
    and "calc_days (parse_date ev) (form_get rq ''start_date'') (form_get rq ''end_date'')
           = Inr d"
    and "d > leave_balance u"
  shows "user_by_id db (u_id u) = Some u
       \<and> apply_leave ev rq ss db =
           Inr \<lparr>resp = Redirect ''apply_leave'',
                flashes = [(''Insufficient leave balance. You have ''
                              @ str_int (leave_balance u) @ '' days.'', ''danger'')],
                db_after = db, session_after = ss\<rparr>"
  using assms current_user_row [OF assms(1)]
  by (simp add: apply_leave_def reply_def Let_def)

theorem submit_insufficient_balance_witness:
  "current_user emp_session low_db = Some (emp_row\<lparr>leave_balance := 3\<rparr>)
   \<and> calc_days (parse_date demo_env) (form_get five_day_request ''start_date'')
         (form_get five_day_request ''end_date'') = Inr 5
   \<and> apply_leave demo_env five_day_request emp_session low_db =
           Inr \<lparr>resp = Redirect ''apply_leave'',
                flashes = [(''Insufficient leave balance. You have 3 days.'', ''danger'')],
                db_after = low_db, session_after = emp_session\<rparr>"
proof -
  have h1: "current_user emp_session low_db = Some (emp_row\<lparr>leave_balance := 3\<rparr>)"
    by code_simp
  have h2: "role (emp_row\<lparr>leave_balance := 3\<rparr>) = ''employee''" by code_simp
  have h3: "req_method five_day_request = ''POST''" by code_simp
  have h4: "calc_days (parse_date demo_env) (form_get five_day_request ''start_date'')
              (form_get five_day_request ''end_date'') = Inr 5" by code_simp
  have h5: "5 > leave_balance (emp_row\<lparr>leave_balance := 3\<rparr>)" by code_simp
  have m: "''Insufficient leave balance. You have ''
             @ str_int (leave_balance (emp_row\<lparr>leave_balance := 3\<rparr>)) @ '' days.''
           = ''Insufficient leave balance. You have 3 days.''" by code_simp
  show ?thesis
    using submit_insufficient_balance [OF h1 h2 h3 h4 h5] h1 h4 m by simp
qed

subsection \<open>Successful approval\<close>

text \<open>
  Claim C6. An HR reviewer approves a Pending request whose owner has at least the
  request's days: afterwards the owner's balance is the old balance minus the days,
  the request is Approved, and reviewer, review time and (stripped) comment are set.
  With balance 10 and a five-day request the balance becomes 5.
\<close>

theorem approve_debits_and_stamps:
  assumes "current_user ss db = Some u" and "role u = ''hr''"
    and "form_get rq ''action'' = Some ''approve''"
    and "leave_by_id db i = Some l" and "status l = ''Pending''"
    and "user_by_id db (employee_id l) = Some emp"
    and "leave_balance emp \<ge> days l"
  shows "\<exists>out. review_leave ev i rq ss db = Inr out
           \<and> flashes out = [(''Leave approved and balance updated.'', ''success'')]
           \<and> user_by_id (db_after out) (employee_id l)
                = Some (emp\<lparr>leave_balance := leave_balance emp - days l\<rparr>)
           \<and> leave_by_id (db_after out) i
                = Some (l\<lparr>status := ''Approved'', reviewed_by := Some (u_id u),
                          reviewed_at := Some (iso_now ev),
                          review_comment := Some (strip (form_get_default rq ''comment'' ''''))\<rparr>)"
proof -
  have eid: "u_id emp = employee_id l"
    using assms(6) by (auto simp: user_by_id_def dest: find_holds)
  have lid: "l_id l = i"
    using assms(4) by (auto simp: leave_by_id_def dest: find_holds)
  show ?thesis
    using assms eid lid
    by (simp add: review_leave_def reply_def Let_def user_by_id_debit leave_by_id_set_review)
qed

theorem approve_debits_and_stamps_witness:
  "current_user hr_session demo_db = Some hr_row
   \<and> leave_by_id demo_db 1 = Some pending_row
   \<and> user_by_id demo_db (employee_id pending_row) = Some emp_row
   \<and> leave_balance emp_row = 10 \<and> days pending_row = 5
   \<and> (\<exists>out. review_leave demo_env 1 approve_request hr_session demo_db = Inr out
           \<and> flashes out = [(''Leave approved and balance updated.'', ''success'')]
           \<and> user_by_id (db_after out) 2 = Some (emp_row\<lparr>leave_balance := 5\<rparr>)
           \<and> leave_by_id (db_after out) 1
                = Some (pending_row\<lparr>status := ''Approved'', reviewed_by := Some 1,
                          reviewed_at := Some ''2024-02-20T09:00:00'',
                          review_comment := Some ''ok''\<rparr>))"
proof -
  have h1: "current_user hr_session demo_db = Some hr_row" by code_simp
  have h2: "role hr_row = ''hr''" by code_simp
  have h3: "form_get approve_request ''action'' = Some ''approve''" by code_simp
  have h4: "leave_by_id demo_db 1 = Some pending_row" by code_simp
  have h5: "status pending_row = ''Pending''" by code_simp
  have h6: "user_by_id demo_db (employee_id pending_row) = Some emp_row" by code_simp
  have h7: "leave_balance emp_row \<ge> days pending_row" by code_simp
  have v1: "leave_balance emp_row = 10" by code_simp
  have v2: "days pending_row = 5" by code_simp
  have v3: "employee_id pending_row = 2" by code_simp
  have v4: "u_id hr_row = 1" by code_simp
  have v5: "iso_now demo_env = ''2024-02-20T09:00:00''" by code_simp
  have v6: "strip (form_get_default approve_request ''comment'' '''') = ''ok''" by code_simp
  show ?thesis
    using approve_debits_and_stamps [OF h1 h2 h3 h4 h5 h6 h7, of demo_env]
      h1 h4 h6 v1 v2 v3 v4 v5 v6
    by simp
qed

subsection \<open>Calendar order and ordinals\<close>

lemma div_pred:
  fixes y k :: int
  assumes "0 < k"
  shows "y div k = (y - 1) div k + (if y mod k = 0 then 1 else 0)"
proof (cases "y mod k = 0")
  case True
  have "k * (y div k) + y mod k = y" by (rule mult_div_mod_eq)
  with True have "y - 1 = k * (y div k - 1) + (k - 1)" by (simp add: right_diff_distrib)
  moreover have "0 \<le> k - 1" "k - 1 < k" using assms by simp_all
  ultimately have "(y - 1) div k = y div k - 1"
    by (rule int_div_pos_eq)
  with True show ?thesis by simp
next
  case False
  have "0 \<le> y mod k" "y mod k < k" using assms by simp_all
  with False have r: "0 \<le> y mod k - 1" "y mod k - 1 < k" by simp_all
  have "k * (y div k) + y mod k = y" by (rule mult_div_mod_eq)
  then have "y - 1 = k * (y div k) + (y mod k - 1)" by simp
  then have "(y - 1) div k = y div k"
    using r by (rule int_div_pos_eq)
  with False show ?thesis by simp
qed

lemma year_length_arith:
  fixes q4 p4 q100 p100 q400 p400 y :: int
  assumes "q4 = p4 + (if c4 then 1 else 0)"
    and "q100 = p100 + (if c100 then 1 else 0)"
    and "q400 = p400 + (if c400 then 1 else 0)"
    and "c400 \<longrightarrow> c100" and "c100 \<longrightarrow> c4"
  shows "y * 365 + q4 - q100 + q400
       = (y * 365 - 365) + p4 - p100 + p400
           + (if c4 \<and> (\<not> c100 \<or> c400) then 366 else 365)"
  using assms by (cases c4; cases c100; cases c400) simp_all

lemma dby_step:
  "days_before_year (y + 1) = days_before_year y + (if is_leap y then 366 else 365)"
proof -
  have d4: "y div 4 = (y - 1) div 4 + (if y mod 4 = 0 then 1 else 0)"
    by (rule div_pred) simp
  have d100: "y div 100 = (y - 1) div 100 + (if y mod 100 = 0 then 1 else 0)"
    by (rule div_pred) simp
  have d400: "y div 400 = (y - 1) div 400 + (if y mod 400 = 0 then 1 else 0)"
    by (rule div_pred) simp
  have m1: "y mod 400 = 0 \<longrightarrow> y mod 100 = 0"
    using mod_mod_cancel [of 100 400 y] by auto
  have m2: "y mod 100 = 0 \<longrightarrow> y mod 4 = 0"
    using mod_mod_cancel [of 4 100 y] by auto
  have e: "days_before_year (y + 1) = y * 365 + y div 4 - y div 100 + y div 400"
    by (simp add: days_before_year_def)
  have f: "days_before_year y
             = (y * 365 - 365) + (y - 1) div 4 - (y - 1) div 100 + (y - 1) div 400"
    by (simp add: days_before_year_def Let_def left_diff_distrib)
  show ?thesis
    unfolding e f is_leap_def
    by (rule year_length_arith [OF d4 d100 d400 m1 m2])
qed

lemma dby_next_year:
  assumes "y < z"
  shows "days_before_year y + (if is_leap y then 366 else 365) \<le> days_before_year z"
proof -
  have "y + 1 \<le> z" using assms by simp
  then have "days_before_year (y + 1) \<le> days_before_year z"
  proof (induction z rule: int_ge_induct)
    case base
    show ?case by simp
  next
    case (step i)
    have "days_before_year i \<le> days_before_year (i + 1)"
      by (simp add: dby_step)
    with step.IH show ?case by simp
  qed
  then show ?thesis by (simp add: dby_step)
qed

lemma month_cases:
  fixes m :: int
  assumes "1 \<le> m" and "m \<le> 12"
  shows "m \<in> {1, 2, 3, 4, 5, 6, 7, 8, 9, 10, 11, 12}"
  using assms by simp arith

lemma dbm_values:
  "days_before_month y 1 = 0"
  "days_before_month y 2 = 31"
  "days_before_month y 3 = 59 + (if is_leap y then 1 else 0)"
  "days_before_month y 4 = 90 + (if is_leap y then 1 else 0)"
  "days_before_month y 5 = 120 + (if is_leap y then 1 else 0)"
  "days_before_month y 6 = 151 + (if is_leap y then 1 else 0)"
  "days_before_month y 7 = 181 + (if is_leap y then 1 else 0)"
  "days_before_month y 8 = 212 + (if is_leap y then 1 else 0)"
  "days_before_month y 9 = 243 + (if is_leap y then 1 else 0)"
  "days_before_month y 10 = 273 + (if is_leap y then 1 else 0)"
  "days_before_month y 11 = 304 + (if is_leap y then 1 else 0)"
  "days_before_month y 12 = 334 + (if is_leap y then 1 else 0)"
  by (simp_all add: days_before_month_def)

lemma dim_values:
  "days_in_month y 1 = 31"
  "days_in_month y 2 = (if is_leap y then 29 else 28)"
  "days_in_month y 3 = 31"
  "days_in_month y 4 = 30"
  "days_in_month y 5 = 31"
  "days_in_month y 6 = 30"
  "days_in_month y 7 = 31"
  "days_in_month y 8 = 31"
  "days_in_month y 9 = 30"
  "days_in_month y 10 = 31"
  "days_in_month y 11 = 30"
  "days_in_month y 12 = 31"
  by (simp_all add: days_in_month_def)

lemma month_end_in_year:
  assumes "1 \<le> m" and "m \<le> 12"
  shows "0 \<le> days_before_month y m
       \<and> days_before_month y m + days_in_month y m \<le> (if is_leap y then 366 else 365)"
  using month_cases [OF assms] by (auto simp: dbm_values dim_values)

lemma month_end_before_next:
  assumes "1 \<le> m" and "m < n" and "n \<le> 12"
  shows "days_before_month y m + days_in_month y m \<le> days_before_month y n"
proof -
  have "m \<in> {1, 2, 3, 4, 5, 6, 7, 8, 9, 10, 11, 12}"
    using assms by (intro month_cases) simp_all
  moreover have "n \<in> {1, 2, 3, 4, 5, 6, 7, 8, 9, 10, 11, 12}"
    using assms by (intro month_cases) simp_all
  ultimately show ?thesis
    using assms(2) by (auto simp: dbm_values dim_values)
qed

lemma toordinal_strict:
  assumes "valid_date a" and "valid_date b"
    and "year a < year b
         \<or> (year a = year b \<and> (month a < month b \<or> (month a = month b \<and> day a < day b)))"
  shows "toordinal a < toordinal b"
proof -
  have va: "1 \<le> month a" "month a \<le> 12" "1 \<le> day a"
       "day a \<le> days_in_month (year a) (month a)"
    using assms(1) by (simp_all add: valid_date_def)
  have vb: "1 \<le> month b" "month b \<le> 12" "1 \<le> day b"
       "day b \<le> days_in_month (year b) (month b)"
    using assms(2) by (simp_all add: valid_date_def)
  consider (y) "year a < year b"
    | (m) "year a = year b" "month a < month b"
    | (d) "year a = year b" "month a = month b" "day a < day b"
    using assms(3) by blast
  then show ?thesis
  proof cases
    case y
    have "toordinal a \<le> days_before_year (year a) + (if is_leap (year a) then 366 else 365)"
      using month_end_in_year [OF va(1,2), of "year a"] va(4) by (simp add: toordinal_def)
    also have "\<dots> \<le> days_before_year (year b)"
      using y by (rule dby_next_year)
    also have "\<dots> < toordinal b"
      using month_end_in_year [OF vb(1,2), of "year b"] vb(3) by (simp add: toordinal_def)
    finally show ?thesis .
  next
    case m
    have "days_before_month (year a) (month a) + day a
            \<le> days_before_month (year a) (month a) + days_in_month (year a) (month a)"
      using va(4) by simp
    also have "\<dots> \<le> days_before_month (year a) (month b)"
      using va(1) m(2) vb(2) by (rule month_end_before_next)
    finally show ?thesis using m(1) vb(3) by (simp add: toordinal_def)
  next
    case d
    then show ?thesis by (simp add: toordinal_def)
  qed
qed

lemma date_le_iff_ordinal:
  assumes "valid_date a" and "valid_date b"
  shows "date_le a b \<longleftrightarrow> toordinal a \<le> toordinal b"
proof
  assume le: "date_le a b"
  show "toordinal a \<le> toordinal b"
  proof (cases "year a = year b \<and> month a = month b \<and> day a = day b")
    case True
    then show ?thesis by (simp add: toordinal_def)
  next
    case False
    with le have "year a < year b
         \<or> (year a = year b \<and> (month a < month b \<or> (month a = month b \<and> day a < day b)))"
      unfolding date_le_def by auto
    from toordinal_strict [OF assms this] show ?thesis by simp
  qed
next
  assume ord: "toordinal a \<le> toordinal b"
  show "date_le a b"
  proof (rule ccontr)
    assume "\<not> date_le a b"
    then have "year b < year a
         \<or> (year b = year a \<and> (month b < month a \<or> (month b = month a \<and> day b < day a)))"
      unfolding date_le_def by auto
    from toordinal_strict [OF assms(2,1) this] ord show False by simp
  qed
qed

subsection \<open>The day count\<close>

text \<open>
  Claim C7. When both strings parse (to dates as \<open>datetime.date\<close> holds them, that is
  valid calendar dates), \<open>calc_days\<close> returns the difference of the two dates in whole
  days plus one if the start is not after the end, and 0 (never a negative number) if the
  end is before the start. From 2024-01-01 to 2024-01-03 it returns 3.
\<close>

theorem calc_days_inclusive:
  assumes "parse a = Some s" and "parse b = Some e"
    and "valid_date s" and "valid_date e"
  shows "(date_le s e \<longrightarrow>
            calc_days parse (Some a) (Some b) = Inr (toordinal e - toordinal s + 1))
       \<and> (\<not> date_le s e \<longrightarrow> calc_days parse (Some a) (Some b) = Inr 0)"
  using assms(1,2) date_le_iff_ordinal [OF assms(3,4)]
  by (simp add: calc_days_def Let_def)

theorem calc_days_inclusive_witness:
  "parse_iso ''2024-01-01'' = Some \<lparr>year = 2024, month = 1, day = 1\<rparr>
   \<and> parse_iso ''2024-01-03'' = Some \<lparr>year = 2024, month = 1, day = 3\<rparr>
   \<and> valid_date \<lparr>year = 2024, month = 1, day = 1\<rparr>
   \<and> valid_date \<lparr>year = 2024, month = 1, day = 3\<rparr>
   \<and> date_le \<lparr>year = 2024, month = 1, day = 1\<rparr> \<lparr>year = 2024, month = 1, day = 3\<rparr>
   \<and> \<not> date_le \<lparr>year = 2024, month = 1, day = 3\<rparr> \<lparr>year = 2024, month = 1, day = 1\<rparr>
   \<and> toordinal \<lparr>year = 2024, month = 1, day = 1\<rparr> = 738886
   \<and> toordinal \<lparr>year = 2024, month = 1, day = 3\<rparr> = 738888
   \<and> calc_days parse_iso (Some ''2024-01-01'') (Some ''2024-01-03'') = Inr 3
   \<and> calc_days parse_iso (Some ''2024-01-03'') (Some ''2024-01-01'') = Inr 0"
proof -
  have p1: "parse_iso ''2024-01-01'' = Some \<lparr>year = 2024, month = 1, day = 1\<rparr>"
    by code_simp
  have p3: "parse_iso ''2024-01-03'' = Some \<lparr>year = 2024, month = 1, day = 3\<rparr>"
    by code_simp
  have v1: "valid_date \<lparr>year = 2024, month = 1, day = 1\<rparr>" by code_simp
  have v3: "valid_date \<lparr>year = 2024, month = 1, day = 3\<rparr>" by code_simp
  have le: "date_le \<lparr>year = 2024, month = 1, day = 1\<rparr> \<lparr>year = 2024, month = 1, day = 3\<rparr>"
    by code_simp
  have nle: "\<not> date_le \<lparr>year = 2024, month = 1, day = 3\<rparr> \<lparr>year = 2024, month = 1, day = 1\<rparr>"
    by code_simp
  have o1: "toordinal \<lparr>year = 2024, month = 1, day = 1\<rparr> = 738886" by code_simp
  have o3: "toordinal \<lparr>year = 2024, month = 1, day = 3\<rparr> = 738888" by code_simp
  show ?thesis
    using calc_days_inclusive [where parse = parse_iso and a = "''2024-01-01''"
              and b = "''2024-01-03''", OF p1 p3 v1 v3]
          calc_days_inclusive [where parse = parse_iso and a = "''2024-01-03''"
              and b = "''2024-01-01''", OF p3 p1 v3 v1]
          p1 p3 v1 v3 le nle o1 o3
    by simp
qed

subsection \<open>Viewing a leave without a session\<close>

text \<open>
  Claim C10. \<open>view_leave\<close> on an existing leave (with its owner's row, as the join
  needs) when no user is logged in ends in an exception, the \<open>TypeError\<close> of reading
  the role of \<open>None\<close>, and not in an access-denied response; with a logged-in user the
  route always returns a response.
\<close>

theorem view_leave_without_login_faults:
  "(leave_by_id db i = Some l \<and> user_by_id db (employee_id l) = Some owner
      \<and> current_user ss db = None \<longrightarrow> view_leave i ss db = Inl TypeError)
   \<and> (current_user ss db = Some u \<longrightarrow> (\<exists>out. view_leave i ss db = Inr out))"
proof (intro conjI impI)
  assume "leave_by_id db i = Some l \<and> user_by_id db (employee_id l) = Some owner
      \<and> current_user ss db = None"
  then show "view_leave i ss db = Inl TypeError"
    by (simp add: view_leave_def leave_with_owner_found)
next
  assume "current_user ss db = Some u"
  then show "\<exists>out. view_leave i ss db = Inr out"
    by (simp add: view_leave_def reply_def split: option.splits prod.splits)
qed

theorem view_leave_without_login_faults_witness:
  "leave_by_id demo_db 1 = Some pending_row
   \<and> user_by_id demo_db (employee_id pending_row) = Some emp_row
   \<and> current_user no_session demo_db = None
   \<and> view_leave 1 no_session demo_db = Inl TypeError
   \<and> current_user emp_session demo_db = Some emp_row
   \<and> (\<exists>out. view_leave 1 emp_session demo_db = Inr out)"
proof -
  have h1: "leave_by_id demo_db 1 = Some pending_row" by code_simp
  have h2: "user_by_id demo_db (employee_id pending_row) = Some emp_row" by code_simp
  have h3: "current_user no_session demo_db = None" by code_simp
  have h4: "current_user emp_session demo_db = Some emp_row" by code_simp
  show ?thesis
    using view_leave_without_login_faults
            [of demo_db 1 pending_row emp_row no_session hr_row]
          view_leave_without_login_faults
            [of demo_db 1 pending_row emp_row emp_session emp_row]
          h1 h2 h3 h4
    by simp
qed

subsection \<open>What a request can change\<close>



lemma apply_leave_users:
  "apply_leave ev rq ss db = Inr out \<Longrightarrow> users (db_after out) = users db"
  by (auto simp: apply_leave_def reply_def Let_def insert_leave_def
           split: option.splits if_splits sum.splits)

lemma apply_leave_days:
  assumes "apply_leave ev rq ss db = Inr out" and "days_nonneg db"
  shows "days_nonneg (db_after out)"
  using assms
  by (auto simp: apply_leave_def reply_def Let_def insert_leave_def days_nonneg_def
           split: option.splits if_splits sum.splits dest: calc_days_nonneg)

lemma debit_keeps_nonneg:
  assumes "distinct (map u_id xs)" and "find (\<lambda>u. u_id u = j) xs = Some emp"
    and "\<not> leave_balance emp < d" and "list_all (\<lambda>u. 0 \<le> leave_balance u) xs"
  shows "list_all (\<lambda>u. 0 \<le> leave_balance u)
           (map (\<lambda>u. if u_id u = u_id emp
                      then u\<lparr>leave_balance := leave_balance u - d\<rparr> else u) xs)"
proof -
  have emp_in: "emp \<in> set xs" using assms(2) by (auto dest: find_holds)
  have inj: "inj_on u_id (set xs)" using assms(1) by (simp add: distinct_map)
  have same: "x = emp" if "x \<in> set xs" and "u_id x = u_id emp" for x
    using inj that emp_in by (auto dest: inj_onD)
  have "0 \<le> leave_balance x - d" if "x \<in> set xs" and "u_id x = u_id emp" for x
    using same [OF that] assms(3) by simp
  then show ?thesis
    using assms(4) by (auto simp: list_all_iff)
qed

lemma review_leave_db_cases:
  assumes "review_leave ev i rq ss db = Inr out"
    and "P db"
    and "\<And>l emp r c. leave_by_id db i = Some l \<Longrightarrow> user_by_id db (employee_id l) = Some emp
           \<Longrightarrow> \<not> leave_balance emp < days l
           \<Longrightarrow> P (set_review ''Approved'' r (iso_now ev) c i
                    (debit_balance (days l) (u_id emp) db))"
    and "\<And>r c. P (set_review ''Rejected'' r (iso_now ev) c i db)"
  shows "P (db_after out)"
  using assms
  by (auto simp: review_leave_def reply_def Let_def split: option.splits if_splits)

lemma users_set_review [simp]: "users (set_review st r at c i db) = users db"
  by (simp add: set_review_def)

lemma leaves_debit_balance [simp]: "leaves (debit_balance d j db) = leaves db"
  by (simp add: debit_balance_def)

lemma ids_debit_balance [simp]:
  "map u_id (users (debit_balance d j db)) = map u_id (users db)"
  by (induction "users db" arbitrary: db) (simp_all add: debit_balance_def)

lemma days_set_review [simp]:
  "map days (leaves (set_review st r at c i db)) = map days (leaves db)"
  by (simp add: set_review_def)

lemma balances_after_debit:
  assumes "user_ids_distinct db" and "balances_nonneg db"
    and "user_by_id db j = Some emp" and "\<not> leave_balance emp < d"
  shows "balances_nonneg (debit_balance d (u_id emp) db)"
  using debit_keeps_nonneg [of "users db" j emp d] assms
  by (simp add: user_ids_distinct_def balances_nonneg_def user_by_id_def debit_balance_def)

lemma review_leave_users:
  assumes "review_leave ev i rq ss db = Inr out"
    and "user_ids_distinct db" and "balances_nonneg db"
  shows "balances_nonneg (db_after out) \<and> user_ids_distinct (db_after out)"
proof (rule review_leave_db_cases [OF assms(1)])
  show "balances_nonneg db \<and> user_ids_distinct db" using assms by simp
next
  fix l emp r c
  assume "user_by_id db (employee_id l) = Some emp" and "\<not> leave_balance emp < days l"
  then have "balances_nonneg (debit_balance (days l) (u_id emp) db)"
    using assms(2,3) by (rule_tac balances_after_debit)
  then show "balances_nonneg (set_review ''Approved'' r (iso_now ev) c i
                 (debit_balance (days l) (u_id emp) db))
           \<and> user_ids_distinct (set_review ''Approved'' r (iso_now ev) c i
                 (debit_balance (days l) (u_id emp) db))"
    using assms(2) by (simp add: balances_nonneg_def user_ids_distinct_def)
next
  fix r c
  show "balances_nonneg (set_review ''Rejected'' r (iso_now ev) c i db)
      \<and> user_ids_distinct (set_review ''Rejected'' r (iso_now ev) c i db)"
    using assms(2,3) by (simp add: balances_nonneg_def user_ids_distinct_def)
qed

lemma review_leave_days:
  assumes "review_leave ev i rq ss db = Inr out" and "days_nonneg db"
  shows "days_nonneg (db_after out)"
proof -
  have "map days (leaves (db_after out)) = map days (leaves db)"
    by (rule review_leave_db_cases [OF assms(1)]) simp_all
  moreover have "days_nonneg d \<longleftrightarrow> list_all (\<lambda>x. 0 \<le> x) (map days (leaves d))" for d
    by (simp add: days_nonneg_def list_all_iff)
  ultimately show ?thesis using assms(2) by simp
qed

lemma review_leave_other_action:
  assumes "form_get rq ''action'' \<noteq> Some ''approve''"
  shows "users (perform ev (Review i rq ss) db) = users db"
  using assms
  by (auto simp: perform_def review_leave_def reply_def Let_def set_review_def
           split: option.splits if_splits sum.splits)

lemma submit_users: "users (perform ev (Submit rq ss) db) = users db"
  by (auto simp: perform_def split: sum.splits dest: apply_leave_users)

lemma perform_invariant:
  assumes "user_ids_distinct db" and "balances_nonneg db"
  shows "balances_nonneg (perform ev op db) \<and> user_ids_distinct (perform ev op db)"
proof (cases op)
  case (Submit rq ss)
  then show ?thesis
    using assms submit_users [of ev rq ss db]
    by (simp add: balances_nonneg_def user_ids_distinct_def)
next
  case (Review i rq ss)
  then show ?thesis
    using assms review_leave_users [of ev i rq ss db]
    by (auto simp: perform_def split: sum.splits)
qed

lemma perform_days:
  assumes "days_nonneg db"
  shows "days_nonneg (perform ev op db)"
  using assms
  by (cases op) (auto simp: perform_def split: sum.splits
                      dest: apply_leave_days review_leave_days)

lemma run_invariant:
  "user_ids_distinct db \<Longrightarrow> balances_nonneg db \<Longrightarrow>
     balances_nonneg (run ev ops db) \<and> user_ids_distinct (run ev ops db)"
proof (induction ops arbitrary: db)
  case Nil
  then show ?case by simp
next
  case (Cons op ops)
  then show ?case using perform_invariant [of db ev op] by simp
qed

lemma run_days: "days_nonneg db \<Longrightarrow> days_nonneg (run ev ops db)"
  by (induction ops arbitrary: db) (simp_all add: perform_days)

lemma find_append_last: "P x \<Longrightarrow> find P (xs @ [x]) \<noteq> None"
  by (induction xs) auto

subsection \<open>Balances stay non-negative\<close>

text \<open>
  Claim C4. From a database whose user ids are distinct (the primary key) and whose
  balances are all non-negative, any sequence of workflow operations (submissions and
  reviews with approve, reject or any other action, by any session) leaves all balances
  non-negative. The day count of every stored request stays non-negative as well, a
  submission never changes the \<open>users\<close> table, and neither does a review whose
  action is not approve: the approve-time debit, guarded by the sufficiency test, is the
  only change to a balance.
\<close>

theorem balance_never_negative:
  assumes "user_ids_distinct db" and "balances_nonneg db"
  shows "balances_nonneg (run ev ops db)
       \<and> (days_nonneg db \<longrightarrow> days_nonneg (run ev ops db))
       \<and> users (perform ev (Submit rq ss) db) = users db
       \<and> (form_get rq' ''action'' \<noteq> Some ''approve''
            \<longrightarrow> users (perform ev (Review i rq' ss') db) = users db)"
  using assms run_invariant [of db ev ops] run_days [of db ev ops]
    submit_users [of ev rq ss db] review_leave_other_action [of rq' ev i ss' db]
  by simp

theorem balance_never_negative_witness:
  "user_ids_distinct demo_db \<and> balances_nonneg demo_db \<and> days_nonneg demo_db
   \<and> users (run demo_env [Submit five_day_request emp_session,
                           Review 1 approve_request hr_session,
                           Review 1 approve_request hr_session,
                           Review 2 approve_request hr_session] demo_db)
       = [hr_row, emp_row\<lparr>leave_balance := 0\<rparr>]
   \<and> balances_nonneg (run demo_env [Submit five_day_request emp_session,
                           Review 1 approve_request hr_session,
                           Review 1 approve_request hr_session,
                           Review 2 approve_request hr_session] demo_db)
   \<and> days_nonneg (run demo_env [Submit five_day_request emp_session,
                           Review 1 approve_request hr_session,
                           Review 1 approve_request hr_session,
                           Review 2 approve_request hr_session] demo_db)
   \<and> form_get reject_request ''action'' \<noteq> Some ''approve''
   \<and> users (perform demo_env (Submit five_day_request emp_session) demo_db) = users demo_db
   \<and> users (perform demo_env (Review 1 reject_request hr_session) demo_db) = users demo_db"
proof -
  have h1: "user_ids_distinct demo_db" by code_simp
  have h2: "balances_nonneg demo_db" by code_simp
  have h3: "days_nonneg demo_db" by code_simp
  have h4: "form_get reject_request ''action'' \<noteq> Some ''approve''" by code_simp
  have h5: "users (run demo_env [Submit five_day_request emp_session,
                           Review 1 approve_request hr_session,
                           Review 1 approve_request hr_session,
                           Review 2 approve_request hr_session] demo_db)
       = [hr_row, emp_row\<lparr>leave_balance := 0\<rparr>]" by code_simp
  show ?thesis
    using balance_never_negative [OF h1 h2, where ev = demo_env
            and ops = "[Submit five_day_request emp_session,
                        Review 1 approve_request hr_session,
                        Review 1 approve_request hr_session,
                        Review 2 approve_request hr_session]"
            and rq = five_day_request and ss = emp_session
            and rq' = reject_request and i = 1 and ss' = hr_session]
          h1 h2 h3 h4 h5
    by simp
qed

subsection \<open>Reviewing a request that is no longer Pending\<close>

text \<open>
  The route never reads the status of the leave. Approving the already approved request
  of the scenario succeeds a second time: the balance goes from 5 to 0 and the review time
  and comment are overwritten.
\<close>

theorem second_approve_debits_again:
  "leave_by_id approved_db 1 = Some approved_row
   \<and> status approved_row = ''Approved''
   \<and> user_by_id approved_db 2 = Some (emp_row\<lparr>leave_balance := 5\<rparr>)
   \<and> review_leave demo_env 1 approve_request hr_session approved_db =
       Inr \<lparr>resp = Redirect ''hr_dashboard'',
            flashes = [(''Leave approved and balance updated.'', ''success'')],
            db_after =
              \<lparr>users = [hr_row, emp_row\<lparr>leave_balance := 0\<rparr>],
               leaves = [approved_row\<lparr>reviewed_at := Some ''2024-02-20T09:00:00'',
                                      review_comment := Some ''ok''\<rparr>]\<rparr>,
            session_after = hr_session\<rparr>"
  by code_simp

text \<open>
  Claim C1, as amended. For an HR reviewer and an existing request whose status is not
  Pending, the review is not refused: it changes no state only when the action is
  approve and the owner's balance is below the request's days (the not-enough-balance
  message) or when the action is neither approve nor reject (the unknown-action message);
  an approve with sufficient balance debits the days from the owner's balance again and
  sets status Approved with the new reviewer, time and comment; a reject sets status
  Rejected with the new reviewer, time and comment and leaves the \<open>users\<close> table as it is.
\<close>

theorem review_ignores_status:
  assumes "current_user ss db = Some u" and "role u = ''hr''"
    and "leave_by_id db i = Some l" and "status l \<noteq> ''Pending''"
  shows "(form_get rq ''action'' = Some ''approve''
            \<and> user_by_id db (employee_id l) = Some emp \<and> leave_balance emp < days l
          \<longrightarrow> review_leave ev i rq ss db =
                Inr \<lparr>resp = Redirect ''hr_dashboard'',
                     flashes = [(''Employee does not have enough balance.'', ''danger'')],
                     db_after = db, session_after = ss\<rparr>)
       \<and> (form_get rq ''action'' \<noteq> Some ''approve'' \<and> form_get rq ''action'' \<noteq> Some ''reject''
          \<longrightarrow> review_leave ev i rq ss db =
                Inr \<lparr>resp = Redirect ''hr_dashboard'',
                     flashes = [(''Unknown action.'', ''warning'')],
                     db_after = db, session_after = ss\<rparr>)
       \<and> (form_get rq ''action'' = Some ''approve''
            \<and> user_by_id db (employee_id l) = Some emp \<and> days l \<le> leave_balance emp
          \<longrightarrow> (\<exists>out. review_leave ev i rq ss db = Inr out
                 \<and> flashes out = [(''Leave approved and balance updated.'', ''success'')]
                 \<and> user_by_id (db_after out) (employee_id l)
                      = Some (emp\<lparr>leave_balance := leave_balance emp - days l\<rparr>)
                 \<and> leave_by_id (db_after out) i
                      = Some (l\<lparr>status := ''Approved'', reviewed_by := Some (u_id u),
                                reviewed_at := Some (iso_now ev),
                                review_comment :=
                                  Some (strip (form_get_default rq ''comment'' ''''))\<rparr>)))
       \<and> (form_get rq ''action'' = Some ''reject''
          \<longrightarrow> (\<exists>out. review_leave ev i rq ss db = Inr out
                 \<and> flashes out = [(''Leave rejected.'', ''info'')]
                 \<and> users (db_after out) = users db
                 \<and> leave_by_id (db_after out) i
                      = Some (l\<lparr>status := ''Rejected'', reviewed_by := Some (u_id u),
                                reviewed_at := Some (iso_now ev),
                                review_comment :=
                                  Some (strip (form_get_default rq ''comment'' ''''))\<rparr>)))"
proof -
  have lid: "l_id l = i"
    using assms(3) by (auto simp: leave_by_id_def dest: find_holds)
  have eid: "u_id emp = employee_id l" if "user_by_id db (employee_id l) = Some emp"
    using that by (auto simp: user_by_id_def dest: find_holds)
  show ?thesis
  proof (intro conjI impI)
    assume "form_get rq ''action'' = Some ''approve''
            \<and> user_by_id db (employee_id l) = Some emp \<and> leave_balance emp < days l"
    then show "review_leave ev i rq ss db =
                Inr \<lparr>resp = Redirect ''hr_dashboard'',
                     flashes = [(''Employee does not have enough balance.'', ''danger'')],
                     db_after = db, session_after = ss\<rparr>"
      using assms by (simp add: review_leave_def reply_def Let_def)
  next
    assume "form_get rq ''action'' \<noteq> Some ''approve'' \<and> form_get rq ''action'' \<noteq> Some ''reject''"
    then show "review_leave ev i rq ss db =
                Inr \<lparr>resp = Redirect ''hr_dashboard'',
                     flashes = [(''Unknown action.'', ''warning'')],
                     db_after = db, session_after = ss\<rparr>"
      using assms by (simp add: review_leave_def reply_def Let_def)
  next
    assume a: "form_get rq ''action'' = Some ''approve''
            \<and> user_by_id db (employee_id l) = Some emp \<and> days l \<le> leave_balance emp"
    then show "\<exists>out. review_leave ev i rq ss db = Inr out
                 \<and> flashes out = [(''Leave approved and balance updated.'', ''success'')]
                 \<and> user_by_id (db_after out) (employee_id l)
                      = Some (emp\<lparr>leave_balance := leave_balance emp - days l\<rparr>)
                 \<and> leave_by_id (db_after out) i
                      = Some (l\<lparr>status := ''Approved'', reviewed_by := Some (u_id u),
                                reviewed_at := Some (iso_now ev),
                                review_comment :=
                                  Some (strip (form_get_default rq ''comment'' ''''))\<rparr>)"
      using assms lid eid
      by (simp add: review_leave_def reply_def Let_def user_by_id_debit leave_by_id_set_review)
  next
    assume "form_get rq ''action'' = Some ''reject''"
    then show "\<exists>out. review_leave ev i rq ss db = Inr out
                 \<and> flashes out = [(''Leave rejected.'', ''info'')]
                 \<and> users (db_after out) = users db
                 \<and> leave_by_id (db_after out) i
                      = Some (l\<lparr>status := ''Rejected'', reviewed_by := Some (u_id u),
                                reviewed_at := Some (iso_now ev),
                                review_comment :=
                                  Some (strip (form_get_default rq ''comment'' ''''))\<rparr>)"
      using assms lid
      by (simp add: review_leave_def reply_def Let_def leave_by_id_set_review)
  qed
qed

theorem review_ignores_status_witness:
  "current_user hr_session approved_db = Some hr_row \<and> role hr_row = ''hr''
   \<and> leave_by_id approved_db 1 = Some approved_row \<and> status approved_row \<noteq> ''Pending''
   \<and> form_get reject_request ''action'' = Some ''reject''
   \<and> (\<exists>out. review_leave demo_env 1 reject_request hr_session approved_db = Inr out
          \<and> flashes out = [(''Leave rejected.'', ''info'')]
          \<and> users (db_after out) = users approved_db
          \<and> leave_by_id (db_after out) 1
               = Some (approved_row\<lparr>status := ''Rejected'', reviewed_by := Some 1,
                         reviewed_at := Some ''2024-02-20T09:00:00'',
                         review_comment := Some ''no''\<rparr>))
   \<and> form_get approve_request ''action'' = Some ''approve''
   \<and> user_by_id approved_db (employee_id approved_row)
        = Some (emp_row\<lparr>leave_balance := 5\<rparr>)
   \<and> days approved_row = 5
   \<and> (\<exists>out. review_leave demo_env 1 approve_request hr_session approved_db = Inr out
          \<and> flashes out = [(''Leave approved and balance updated.'', ''success'')]
          \<and> user_by_id (db_after out) 2 = Some (emp_row\<lparr>leave_balance := 0\<rparr>))"
proof -
  have h1: "current_user hr_session approved_db = Some hr_row" by code_simp
  have h2: "role hr_row = ''hr''" by code_simp
  have h3: "leave_by_id approved_db 1 = Some approved_row" by code_simp
  have h4: "status approved_row \<noteq> ''Pending''" by code_simp
  have h5: "form_get reject_request ''action'' = Some ''reject''" by code_simp
  have v1: "u_id hr_row = 1" by code_simp
  have v2: "iso_now demo_env = ''2024-02-20T09:00:00''" by code_simp
  have v3: "strip (form_get_default reject_request ''comment'' '''') = ''no''" by code_simp
  have a1: "form_get approve_request ''action'' = Some ''approve''" by code_simp
  have a2: "user_by_id approved_db (employee_id approved_row)
              = Some (emp_row\<lparr>leave_balance := 5\<rparr>)" by code_simp
  have a3: "days approved_row = 5" by code_simp
  have a4: "employee_id approved_row = 2" by code_simp
  have a5: "leave_balance (emp_row\<lparr>leave_balance := 5\<rparr>) = 5" by code_simp
  have rej: "\<exists>out. review_leave demo_env 1 reject_request hr_session approved_db = Inr out
          \<and> flashes out = [(''Leave rejected.'', ''info'')]
          \<and> users (db_after out) = users approved_db
          \<and> leave_by_id (db_after out) 1
               = Some (approved_row\<lparr>status := ''Rejected'', reviewed_by := Some 1,
                         reviewed_at := Some ''2024-02-20T09:00:00'',
                         review_comment := Some ''no''\<rparr>)"
    using review_ignores_status [OF h1 h2 h3 h4, where rq = reject_request and ev = demo_env
            and emp = emp_row]
          h5 v1 v2 v3
    by simp
  have app: "\<exists>out. review_leave demo_env 1 approve_request hr_session approved_db = Inr out
          \<and> flashes out = [(''Leave approved and balance updated.'', ''success'')]
          \<and> user_by_id (db_after out) 2 = Some (emp_row\<lparr>leave_balance := 0\<rparr>)"
    using review_ignores_status [OF h1 h2 h3 h4, where rq = approve_request and ev = demo_env
            and emp = "emp_row\<lparr>leave_balance := 5\<rparr>"]
          a1 a2 a3 a4 a5
    by auto
  show ?thesis
    using h1 h2 h3 h4 h5 a1 a2 a3 rej app by simp
qed

subsection \<open>Submissions with a day count of zero\<close>

text \<open>
  A submission whose end date is before its start date has day count 0; 0 is not greater
  than the balance, so the request is inserted as Pending with \<open>days = 0\<close>.
\<close>

theorem inverted_range_is_stored:
  "calc_days (parse_date demo_env) (form_get inverted_request ''start_date'')
       (form_get inverted_request ''end_date'') = Inr 0
   \<and> apply_leave demo_env inverted_request emp_session demo_db =
       Inr \<lparr>resp = Redirect ''employee_dashboard'',
            flashes = [(''Leave application submitted.'', ''success'')],
            db_after =
              \<lparr>users = [hr_row, emp_row],
               leaves = [pending_row,
                         \<lparr>l_id = 2, employee_id = 2, start_date = Some ''2024-03-05'',
                          end_date = Some ''2024-03-01'', days = 0,
                          leave_type = ''Vacation'', reason = ''trip'',
                          applied_at = ''2024-02-20T09:00:00'', status = ''Pending'',
                          reviewed_by = None, reviewed_at = None,
                          review_comment = None\<rparr>]\<rparr>,
            session_after = emp_session\<rparr>"
  by code_simp

text \<open>
  Claim C3, as amended. For an employee's submission: when \<open>calc_days\<close> raises (a date
  is missing or does not parse), the route flashes the invalid-date message and inserts
  nothing. A day count that is not positive is exactly 0, and is not rejected on that
  ground: when the balance is not negative, the request is inserted as Pending with
  \<open>days = 0\<close>.
\<close>

theorem submit_day_count_checks:
  assumes "current_user ss db = Some u" and "role u = ''employee''"
    and "req_method rq = ''POST''"
  shows "(calc_days (parse_date ev) (form_get rq ''start_date'') (form_get rq ''end_date'')
            = Inl exc
          \<longrightarrow> apply_leave ev rq ss db =
                Inr \<lparr>resp = Redirect ''apply_leave'',
                     flashes = [(''Invalid date format. Use YYYY-MM-DD.'', ''danger'')],
                     db_after = db, session_after = ss\<rparr>)
       \<and> (calc_days (parse_date ev) (form_get rq ''start_date'') (form_get rq ''end_date'')
            = Inr d \<and> d \<le> 0 \<and> 0 \<le> leave_balance u
          \<longrightarrow> d = 0
              \<and> apply_leave ev rq ss db =
                Inr \<lparr>resp = Redirect ''employee_dashboard'',
                     flashes = [(''Leave application submitted.'', ''success'')],
                     db_after =
                       db\<lparr>leaves := leaves db @
                            [\<lparr>l_id = next_id (map l_id (leaves db)), employee_id = u_id u,
                              start_date = form_get rq ''start_date'',
                              end_date = form_get rq ''end_date'', days = 0,
                              leave_type = form_get_default rq ''leave_type'' ''Vacation'',
                              reason = strip (form_get_default rq ''reason'' ''''),
                              applied_at = iso_now ev, status = ''Pending'',
                              reviewed_by = None, reviewed_at = None,
                              review_comment = None\<rparr>]\<rparr>,
                     session_after = ss\<rparr>)"
proof (intro conjI impI)
  assume "calc_days (parse_date ev) (form_get rq ''start_date'') (form_get rq ''end_date'')
            = Inl exc"
  then show "apply_leave ev rq ss db =
                Inr \<lparr>resp = Redirect ''apply_leave'',
                     flashes = [(''Invalid date format. Use YYYY-MM-DD.'', ''danger'')],
                     db_after = db, session_after = ss\<rparr>"
    using assms by (simp add: apply_leave_def reply_def Let_def)
next
  assume a: "calc_days (parse_date ev) (form_get rq ''start_date'') (form_get rq ''end_date'')
            = Inr d \<and> d \<le> 0 \<and> 0 \<le> leave_balance u"
  then have d0: "d = 0" using calc_days_nonneg [of "parse_date ev" _ _ d] by auto
  then show "d = 0" .
  show "apply_leave ev rq ss db =
                Inr \<lparr>resp = Redirect ''employee_dashboard'',
                     flashes = [(''Leave application submitted.'', ''success'')],
                     db_after =
                       db\<lparr>leaves := leaves db @
                            [\<lparr>l_id = next_id (map l_id (leaves db)), employee_id = u_id u,
                              start_date = form_get rq ''start_date'',
                              end_date = form_get rq ''end_date'', days = 0,
                              leave_type = form_get_default rq ''leave_type'' ''Vacation'',
                              reason = strip (form_get_default rq ''reason'' ''''),
                              applied_at = iso_now ev, status = ''Pending'',
                              reviewed_by = None, reviewed_at = None,
                              review_comment = None\<rparr>]\<rparr>,
                     session_after = ss\<rparr>"
    using assms a d0 current_user_row [OF assms(1)]
    by (simp add: apply_leave_def reply_def Let_def insert_leave_def default_status_def)
qed

theorem submit_day_count_checks_witness:
  "current_user emp_session demo_db = Some emp_row \<and> role emp_row = ''employee''
   \<and> req_method garbled_request = ''POST''
   \<and> calc_days (parse_date demo_env) (form_get garbled_request ''start_date'')
        (form_get garbled_request ''end_date'') = Inl ParserError
   \<and> apply_leave demo_env garbled_request emp_session demo_db =
        Inr \<lparr>resp = Redirect ''apply_leave'',
             flashes = [(''Invalid date format. Use YYYY-MM-DD.'', ''danger'')],
             db_after = demo_db, session_after = emp_session\<rparr>
   \<and> req_method inverted_request = ''POST''
   \<and> calc_days (parse_date demo_env) (form_get inverted_request ''start_date'')
        (form_get inverted_request ''end_date'') = Inr 0
   \<and> 0 \<le> leave_balance emp_row
   \<and> (\<exists>out. apply_leave demo_env inverted_request emp_session demo_db = Inr out
          \<and> flashes out = [(''Leave application submitted.'', ''success'')]
          \<and> map days (leaves (db_after out)) = [5, 0]
          \<and> map status (leaves (db_after out)) = [''Pending'', ''Pending''])"
proof -
  have h1: "current_user emp_session demo_db = Some emp_row" by code_simp
  have h2: "role emp_row = ''employee''" by code_simp
  have h3: "req_method garbled_request = ''POST''" by code_simp
  have h4: "calc_days (parse_date demo_env) (form_get garbled_request ''start_date'')
        (form_get garbled_request ''end_date'') = Inl ParserError" by code_simp
  have g: "apply_leave demo_env garbled_request emp_session demo_db =
        Inr \<lparr>resp = Redirect ''apply_leave'',
             flashes = [(''Invalid date format. Use YYYY-MM-DD.'', ''danger'')],
             db_after = demo_db, session_after = emp_session\<rparr>"
    using submit_day_count_checks [OF h1 h2 h3, where ev = demo_env and exc = ParserError]
      h4
    by simp
  have i3: "req_method inverted_request = ''POST''" by code_simp
  have i4: "calc_days (parse_date demo_env) (form_get inverted_request ''start_date'')
        (form_get inverted_request ''end_date'') = Inr 0" by code_simp
  have i5: "0 \<le> leave_balance emp_row" by code_simp
  have i6: "map days (leaves demo_db) = [5]" by code_simp
  have i7: "map status (leaves demo_db) = [''Pending'']" by code_simp
  have z: "\<exists>out. apply_leave demo_env inverted_request emp_session demo_db = Inr out
          \<and> flashes out = [(''Leave application submitted.'', ''success'')]
          \<and> map days (leaves (db_after out)) = [5, 0]
          \<and> map status (leaves (db_after out)) = [''Pending'', ''Pending'']"
    using submit_day_count_checks [OF h1 h2 i3, where ev = demo_env and d = 0]
      i4 i5 i6 i7
    by simp
  show ?thesis
    using h1 h2 h3 h4 g i3 i4 i5 z by simp
qed

subsection \<open>The role of a stored user\<close>


lemma register_no_type_error: "register ev rq ss db \<noteq> Inl TypeError"
proof -
  have k: "user_by_id (db\<lparr>users := users db @ [row]\<rparr>) i \<noteq> None"
    if "u_id row = i" for row :: user and i
    unfolding user_by_id_def using that find_append_last [of "\<lambda>u. u_id u = i" row "users db"]
    by simp
  show ?thesis
    by (auto simp: register_def reply_def Let_def insert_user_def k
             split: option.splits if_splits sum.splits prod.splits)
qed


lemma roles_map_balance:
  "list_all (\<lambda>u. role u = ''employee'' \<or> role u = ''hr'')
     (map (\<lambda>u. if u_id u = j then u\<lparr>leave_balance := leave_balance u - d\<rparr> else u) xs)
   = list_all (\<lambda>u. role u = ''employee'' \<or> role u = ''hr'') xs"
  by (induction xs) auto

lemma roles_debit [simp]: "roles_valid (debit_balance d j db) = roles_valid db"
  by (simp add: roles_valid_def debit_balance_def roles_map_balance)

lemma roles_set_review [simp]: "roles_valid (set_review st r at c i db) = roles_valid db"
  by (simp add: roles_valid_def)







subsection \<open>Two reviews at a time\<close>

lemma review_leave_split:
  "review_leave ev i rq ss db =
     (case review_reads i rq ss db of
        Inl exc \<Rightarrow> Inl exc
      | Inr p \<Rightarrow> Inr (review_writes ev i p ss db))"
  by (simp add: review_leave_def review_reads_def review_writes_def reply_def Let_def
           split: option.splits)

lemma one_after_other_is_run:
  "snd (snd (one_after_other ev i1 rq1 ss1 i2 rq2 ss2 db))
     = run ev [Review i1 rq1 ss1, Review i2 rq2 ss2] db"
  by (simp add: one_after_other_def Let_def perform_def committed_def)

lemma approved_reviewD:
  assumes "approved (review_leave ev i rq ss db)"
    and "leave_by_id db i = Some l" and "user_by_id db (employee_id l) = Some emp"
  shows "\<not> leave_balance emp < days l"
    and "\<exists>r c. committed (review_leave ev i rq ss db) db
                 = set_review ''Approved'' r (iso_now ev) c i
                     (debit_balance (days l) (u_id emp) db)"
  using assms
  by (auto simp: approved_def review_leave_def reply_def committed_def Let_def
           split: option.splits if_splits)

lemma user_id_found: "user_by_id db j = Some emp \<Longrightarrow> u_id emp = j"
  by (auto simp: user_by_id_def dest: find_holds)

lemma leave_id_found: "leave_by_id db i = Some l \<Longrightarrow> l_id l = i"
  by (auto simp: leave_by_id_def dest: find_holds)

lemma serial_approvals_exclusive:
  assumes "i1 \<noteq> i2"
    and "leave_by_id db i1 = Some l1" and "leave_by_id db i2 = Some l2"
    and "employee_id l1 = employee_id l2"
    and "user_by_id db (employee_id l1) = Some emp"
    and "leave_balance emp < days l1 + days l2"
    and "one_after_other ev i1 rq1 ss1 i2 rq2 ss2 db = (r1, r2, db2)"
  shows "\<not> (approved r1 \<and> approved r2)"
proof
  assume both: "approved r1 \<and> approved r2"
  let ?db1 = "committed (review_leave ev i1 rq1 ss1 db) db"
  have r1: "r1 = review_leave ev i1 rq1 ss1 db"
    and r2: "r2 = review_leave ev i2 rq2 ss2 ?db1"
    using assms(7) by (auto simp: one_after_other_def Let_def)
  have a1: "approved (review_leave ev i1 rq1 ss1 db)" using both r1 by simp
  have enough1: "\<not> leave_balance emp < days l1"
    using approved_reviewD(1) [OF a1 assms(2,5)] .
  obtain r c where db1: "?db1 = set_review ''Approved'' r (iso_now ev) c i1
                     (debit_balance (days l1) (u_id emp) db)"
    using approved_reviewD(2) [OF a1 assms(2,5)] by blast
  have eid: "u_id emp = employee_id l1" using assms(5) by (rule user_id_found)
  have l2': "leave_by_id ?db1 i2 = Some l2"
    using assms(1,3) leave_id_found [OF assms(3)]
    by (simp add: db1 leave_by_id_set_review)
  have emp': "user_by_id ?db1 (employee_id l2)
                = Some (emp\<lparr>leave_balance := leave_balance emp - days l1\<rparr>)"
    using assms(4,5) eid by (simp add: db1 user_by_id_debit)
  have a2: "approved (review_leave ev i2 rq2 ss2 ?db1)" using both r2 by simp
  have "\<not> leave_balance (emp\<lparr>leave_balance := leave_balance emp - days l1\<rparr>) < days l2"
    using approved_reviewD(1) [OF a2 l2' emp'] .
  then show False using assms(6) by simp
qed

lemma committed_review_invariant:
  assumes "user_ids_distinct db" and "balances_nonneg db"
  shows "balances_nonneg (committed (review_leave ev i rq ss db) db)
       \<and> user_ids_distinct (committed (review_leave ev i rq ss db) db)"
  using assms review_leave_users [of ev i rq ss db]
  by (cases "review_leave ev i rq ss db") (simp_all add: committed_def)

lemma serial_balances_nonneg:
  assumes "user_ids_distinct db" and "balances_nonneg db"
    and "one_after_other ev i1 rq1 ss1 i2 rq2 ss2 db = (r1, r2, db2)"
  shows "balances_nonneg db2"
proof -
  let ?db1 = "committed (review_leave ev i1 rq1 ss1 db) db"
  have "db2 = committed (review_leave ev i2 rq2 ss2 ?db1) ?db1"
    using assms(3) by (auto simp: one_after_other_def Let_def)
  moreover have "balances_nonneg ?db1 \<and> user_ids_distinct ?db1"
    using assms(1,2) by (rule committed_review_invariant)
  ultimately show ?thesis
    using committed_review_invariant [of ?db1 ev i2 rq2 ss2] by simp
qed

lemma current_user_after_approve:
  assumes "current_user ss db = Some u"
  shows "current_user ss (set_review st r at c i (debit_balance d j db))
           = Some (if u_id u = j then u\<lparr>leave_balance := leave_balance u - d\<rparr> else u)"
  using assms
  by (auto simp: current_user_def user_by_id_debit split: option.splits if_splits)

lemma same_request_both_succeed:
  assumes "current_user ss1 db = Some u1" and "role u1 = ''hr''"
    and "current_user ss2 db = Some u2" and "role u2 = ''hr''"
    and "leave_by_id db i = Some l"
    and "user_by_id db (employee_id l) = Some emp" and "days l \<le> leave_balance emp"
    and "form_get rq1 ''action'' = Some ''approve''"
    and "form_get rq2 ''action'' = Some ''reject''"
    and "one_after_other ev i rq1 ss1 i rq2 ss2 db = (r1, r2, db2)"
  shows "approved r1 \<and> rejected r2
       \<and> leave_by_id db2 i
           = Some (l\<lparr>status := ''Rejected'', reviewed_by := Some (u_id u2),
                     reviewed_at := Some (iso_now ev),
                     review_comment := Some (strip (form_get_default rq2 ''comment'' ''''))\<rparr>)
       \<and> user_by_id db2 (employee_id l)
           = Some (emp\<lparr>leave_balance := leave_balance emp - days l\<rparr>)"
proof -
  let ?c1 = "strip (form_get_default rq1 ''comment'' '''')"
  let ?db1 = "set_review ''Approved'' (u_id u1) (iso_now ev) ?c1 i
                (debit_balance (days l) (u_id emp) db)"
  have eid: "u_id emp = employee_id l" using assms(6) by (rule user_id_found)
  have lid: "l_id l = i" using assms(5) by (rule leave_id_found)
  have first: "review_leave ev i rq1 ss1 db =
                 Inr \<lparr>resp = Redirect ''hr_dashboard'',
                      flashes = [(''Leave approved and balance updated.'', ''success'')],
                      db_after = ?db1, session_after = ss1\<rparr>"
    using assms(1,2,5,6,7,8) by (simp add: review_leave_def reply_def Let_def)
  obtain u2' where u2': "current_user ss2 ?db1 = Some u2'" "role u2' = role u2"
      "u_id u2' = u_id u2"
    using current_user_after_approve [OF assms(3)] by simp
  have l1: "leave_by_id ?db1 i
              = Some (l\<lparr>status := ''Approved'', reviewed_by := Some (u_id u1),
                        reviewed_at := Some (iso_now ev), review_comment := Some ?c1\<rparr>)"
    using assms(5) lid by (simp add: leave_by_id_set_review)
  have second: "review_leave ev i rq2 ss2 ?db1 =
                 Inr \<lparr>resp = Redirect ''hr_dashboard'',
                      flashes = [(''Leave rejected.'', ''info'')],
                      db_after = set_review ''Rejected'' (u_id u2) (iso_now ev)
                                   (strip (form_get_default rq2 ''comment'' '''')) i ?db1,
                      session_after = ss2\<rparr>"
    using u2' assms(4,9) l1 by (simp add: review_leave_def reply_def Let_def)
  have r1: "r1 = review_leave ev i rq1 ss1 db"
    and r2: "r2 = review_leave ev i rq2 ss2 ?db1"
    and db2: "db2 = set_review ''Rejected'' (u_id u2) (iso_now ev)
                       (strip (form_get_default rq2 ''comment'' '''')) i ?db1"
    using assms(10) first second
    by (auto simp: one_after_other_def Let_def committed_def)
  show ?thesis
    using first second r1 r2 lid eid assms(5,6)
    by (simp add: db2 approved_def rejected_def leave_by_id_set_review user_by_id_debit)
qed

lemma unserialized_approvals_both_succeed:
  assumes "current_user ss1 db = Some u1" and "role u1 = ''hr''"
    and "current_user ss2 db = Some u2" and "role u2 = ''hr''"
    and "i1 \<noteq> i2"
    and "leave_by_id db i1 = Some l1" and "leave_by_id db i2 = Some l2"
    and "employee_id l1 = employee_id l2"
    and "user_by_id db (employee_id l1) = Some emp"
    and "days l1 \<le> leave_balance emp" and "days l2 \<le> leave_balance emp"
    and "form_get rq1 ''action'' = Some ''approve''"
    and "form_get rq2 ''action'' = Some ''approve''"
    and "reads_before_writes ev i1 rq1 ss1 i2 rq2 ss2 db = (r1, r2, db2)"
  shows "approved r1 \<and> approved r2
       \<and> user_by_id db2 (employee_id l1)
           = Some (emp\<lparr>leave_balance := leave_balance emp - days l1 - days l2\<rparr>)
       \<and> map_option status (leave_by_id db2 i1) = Some ''Approved''
       \<and> map_option status (leave_by_id db2 i2) = Some ''Approved''"
proof -
  have eid: "u_id emp = employee_id l1" using assms(9) by (rule user_id_found)
  have lid1: "l_id l1 = i1" using assms(6) by (rule leave_id_found)
  have lid2: "l_id l2 = i2" using assms(7) by (rule leave_id_found)
  have p1: "review_reads i1 rq1 ss1 db
              = Inr (Approve_write (u_id u1) (strip (form_get_default rq1 ''comment'' ''''))
                       (days l1) (u_id emp))"
    using assms(1,2,6,9,10,12) by (simp add: review_reads_def Let_def)
  have p2: "review_reads i2 rq2 ss2 db
              = Inr (Approve_write (u_id u2) (strip (form_get_default rq2 ''comment'' ''''))
                       (days l2) (u_id emp))"
    using assms(3,4,7,8,9,11,13) by (simp add: review_reads_def Let_def)
  show ?thesis
    using assms(14) assms(5,6,7,8,9) eid lid1 lid2
    by (auto simp: reads_before_writes_def p1 p2 Let_def review_writes_def committed_def
                   approved_def leave_by_id_set_review user_by_id_debit)
qed

text \<open>
  Two approvals for the five-day and the seven-day request of an employee with ten days,
  both having read before either writes: both succeed and the balance ends at \<open>-2\<close>. An
  approval and then a rejection of the same request: both succeed, and the request ends
  Rejected.
\<close>

theorem concurrent_reviews_both_succeed:
  "leave_balance emp_row < days pending_row + days second_row
   \<and> approved (fst (reads_before_writes demo_env 1 approve_request hr_session
                      2 approve_request hr_session two_requests_db))
   \<and> approved (fst (snd (reads_before_writes demo_env 1 approve_request hr_session
                      2 approve_request hr_session two_requests_db)))
   \<and> map leave_balance (users (snd (snd (reads_before_writes demo_env 1 approve_request
                      hr_session 2 approve_request hr_session two_requests_db))))
        = [20, - 2]
   \<and> approved (fst (one_after_other demo_env 1 approve_request hr_session
                      1 reject_request hr_session demo_db))
   \<and> rejected (fst (snd (one_after_other demo_env 1 approve_request hr_session
                      1 reject_request hr_session demo_db)))
   \<and> map status (leaves (snd (snd (one_after_other demo_env 1 approve_request hr_session
                      1 reject_request hr_session demo_db))))
        = [''Rejected'']"
  by code_simp

text \<open>
  Claim C9, as amended. Run one after the other, two approve calls against two requests
  of one employee whose days together exceed the balance do not both succeed, and the
  balances stay non-negative. The route has nothing that keeps two calls apart: when
  both calls have read before either writes, and each request alone is within the
  balance, both approvals succeed, the balance is debited by both amounts and both
  requests are Approved. Two review actions on the same request, an approve and then a
  reject, both succeed: the later one overwrites the status and the stamps of the
  earlier, the debit stays, and no call is refused.
\<close>

theorem reviews_without_isolation:
  "(i1 \<noteq> i2 \<and> leave_by_id db i1 = Some l1 \<and> leave_by_id db i2 = Some l2
      \<and> employee_id l1 = employee_id l2 \<and> user_by_id db (employee_id l1) = Some emp
      \<and> leave_balance emp < days l1 + days l2
      \<and> user_ids_distinct db \<and> balances_nonneg db
      \<and> one_after_other ev i1 rq1 ss1 i2 rq2 ss2 db = (r1, r2, db2)
    \<longrightarrow> \<not> (approved r1 \<and> approved r2) \<and> balances_nonneg db2)
   \<and> (current_user ss1 db = Some u1 \<and> role u1 = ''hr''
      \<and> current_user ss2 db = Some u2 \<and> role u2 = ''hr''
      \<and> i1 \<noteq> i2 \<and> leave_by_id db i1 = Some l1 \<and> leave_by_id db i2 = Some l2
      \<and> employee_id l1 = employee_id l2 \<and> user_by_id db (employee_id l1) = Some emp
      \<and> days l1 \<le> leave_balance emp \<and> days l2 \<le> leave_balance emp
      \<and> form_get rq1 ''action'' = Some ''approve''
      \<and> form_get rq2 ''action'' = Some ''approve''
      \<and> reads_before_writes ev i1 rq1 ss1 i2 rq2 ss2 db = (r1, r2, db2)
    \<longrightarrow> approved r1 \<and> approved r2
        \<and> user_by_id db2 (employee_id l1)
            = Some (emp\<lparr>leave_balance := leave_balance emp - days l1 - days l2\<rparr>)
        \<and> map_option status (leave_by_id db2 i1) = Some ''Approved''
        \<and> map_option status (leave_by_id db2 i2) = Some ''Approved'')
   \<and> (current_user ss1 db = Some u1 \<and> role u1 = ''hr''
      \<and> current_user ss2 db = Some u2 \<and> role u2 = ''hr''
      \<and> leave_by_id db i1 = Some l1 \<and> user_by_id db (employee_id l1) = Some emp
      \<and> days l1 \<le> leave_balance emp
      \<and> form_get rq1 ''action'' = Some ''approve''
      \<and> form_get rq2 ''action'' = Some ''reject''
      \<and> one_after_other ev i1 rq1 ss1 i1 rq2 ss2 db = (r1, r2, db2)
    \<longrightarrow> approved r1 \<and> rejected r2
        \<and> leave_by_id db2 i1
            = Some (l1\<lparr>status := ''Rejected'', reviewed_by := Some (u_id u2),
                       reviewed_at := Some (iso_now ev),
                       review_comment :=
                         Some (strip (form_get_default rq2 ''comment'' ''''))\<rparr>)
        \<and> user_by_id db2 (employee_id l1)
            = Some (emp\<lparr>leave_balance := leave_balance emp - days l1\<rparr>))"
proof (intro conjI impI)
  assume h: "i1 \<noteq> i2 \<and> leave_by_id db i1 = Some l1 \<and> leave_by_id db i2 = Some l2
      \<and> employee_id l1 = employee_id l2 \<and> user_by_id db (employee_id l1) = Some emp
      \<and> leave_balance emp < days l1 + days l2
      \<and> user_ids_distinct db \<and> balances_nonneg db
      \<and> one_after_other ev i1 rq1 ss1 i2 rq2 ss2 db = (r1, r2, db2)"
  then show "\<not> (approved r1 \<and> approved r2)"
    using serial_approvals_exclusive [of i1 i2 db l1 l2 emp ev rq1 ss1 rq2 ss2 r1 r2 db2]
    by blast
  from h show "balances_nonneg db2"
    using serial_balances_nonneg [of db ev i1 rq1 ss1 i2 rq2 ss2 r1 r2 db2] by blast
next
  assume h: "current_user ss1 db = Some u1 \<and> role u1 = ''hr''
      \<and> current_user ss2 db = Some u2 \<and> role u2 = ''hr''
      \<and> i1 \<noteq> i2 \<and> leave_by_id db i1 = Some l1 \<and> leave_by_id db i2 = Some l2
      \<and> employee_id l1 = employee_id l2 \<and> user_by_id db (employee_id l1) = Some emp
      \<and> days l1 \<le> leave_balance emp \<and> days l2 \<le> leave_balance emp
      \<and> form_get rq1 ''action'' = Some ''approve''
      \<and> form_get rq2 ''action'' = Some ''approve''
      \<and> reads_before_writes ev i1 rq1 ss1 i2 rq2 ss2 db = (r1, r2, db2)"
  then have c: "approved r1 \<and> approved r2
        \<and> user_by_id db2 (employee_id l1)
            = Some (emp\<lparr>leave_balance := leave_balance emp - days l1 - days l2\<rparr>)
        \<and> map_option status (leave_by_id db2 i1) = Some ''Approved''
        \<and> map_option status (leave_by_id db2 i2) = Some ''Approved''"
    using unserialized_approvals_both_succeed
            [of ss1 db u1 ss2 u2 i1 i2 l1 l2 emp rq1 rq2 ev r1 r2 db2]
    by blast
  from c show "approved r1" by simp
  from c show "approved r2" by simp
  from c show "user_by_id db2 (employee_id l1)
            = Some (emp\<lparr>leave_balance := leave_balance emp - days l1 - days l2\<rparr>)" by simp
  from c show "map_option status (leave_by_id db2 i1) = Some ''Approved''" by simp
  from c show "map_option status (leave_by_id db2 i2) = Some ''Approved''" by simp
next
  assume h: "current_user ss1 db = Some u1 \<and> role u1 = ''hr''
      \<and> current_user ss2 db = Some u2 \<and> role u2 = ''hr''
      \<and> leave_by_id db i1 = Some l1 \<and> user_by_id db (employee_id l1) = Some emp
      \<and> days l1 \<le> leave_balance emp
      \<and> form_get rq1 ''action'' = Some ''approve''
      \<and> form_get rq2 ''action'' = Some ''reject''
      \<and> one_after_other ev i1 rq1 ss1 i1 rq2 ss2 db = (r1, r2, db2)"
  then have c: "approved r1 \<and> rejected r2
        \<and> leave_by_id db2 i1
            = Some (l1\<lparr>status := ''Rejected'', reviewed_by := Some (u_id u2),
                       reviewed_at := Some (iso_now ev),
                       review_comment :=
                         Some (strip (form_get_default rq2 ''comment'' ''''))\<rparr>)
        \<and> user_by_id db2 (employee_id l1)
            = Some (emp\<lparr>leave_balance := leave_balance emp - days l1\<rparr>)"
    using same_request_both_succeed [of ss1 db u1 ss2 u2 i1 l1 emp rq1 rq2 ev r1 r2 db2]
    by blast
  from c show "approved r1" by simp
  from c show "rejected r2" by simp
  from c show "leave_by_id db2 i1
            = Some (l1\<lparr>status := ''Rejected'', reviewed_by := Some (u_id u2),
                       reviewed_at := Some (iso_now ev),
                       review_comment :=
                         Some (strip (form_get_default rq2 ''comment'' ''''))\<rparr>)" by simp
  from c show "user_by_id db2 (employee_id l1)
            = Some (emp\<lparr>leave_balance := leave_balance emp - days l1\<rparr>)" by simp
qed

theorem reviews_without_isolation_witness:
  "leave_balance emp_row < days pending_row + days second_row
   \<and> user_ids_distinct two_requests_db \<and> balances_nonneg two_requests_db
   \<and> \<not> (approved (fst (one_after_other demo_env 1 approve_request hr_session
                          2 approve_request hr_session two_requests_db))
         \<and> approved (fst (snd (one_after_other demo_env 1 approve_request hr_session
                          2 approve_request hr_session two_requests_db))))
   \<and> balances_nonneg (snd (snd (one_after_other demo_env 1 approve_request hr_session
                          2 approve_request hr_session two_requests_db)))
   \<and> approved (fst (reads_before_writes demo_env 1 approve_request hr_session
                      2 approve_request hr_session two_requests_db))
   \<and> approved (fst (snd (reads_before_writes demo_env 1 approve_request hr_session
                      2 approve_request hr_session two_requests_db)))
   \<and> user_by_id (snd (snd (reads_before_writes demo_env 1 approve_request hr_session
                      2 approve_request hr_session two_requests_db))) 2
        = Some (emp_row\<lparr>leave_balance := - 2\<rparr>)
   \<and> approved (fst (one_after_other demo_env 1 approve_request hr_session
                      1 reject_request hr_session two_requests_db))
   \<and> rejected (fst (snd (one_after_other demo_env 1 approve_request hr_session
                      1 reject_request hr_session two_requests_db)))
   \<and> map_option status (leave_by_id (snd (snd (one_after_other demo_env 1 approve_request
                      hr_session 1 reject_request hr_session two_requests_db))) 1)
        = Some ''Rejected''"
proof -
  let ?S = "one_after_other demo_env 1 approve_request hr_session
              2 approve_request hr_session two_requests_db"
  let ?I = "reads_before_writes demo_env 1 approve_request hr_session
              2 approve_request hr_session two_requests_db"
  let ?R = "one_after_other demo_env 1 approve_request hr_session
              1 reject_request hr_session two_requests_db"
  have u: "current_user hr_session two_requests_db = Some hr_row" by code_simp
  have r: "role hr_row = ''hr''" by code_simp
  have n: "(1::int) \<noteq> 2" by simp
  have l1: "leave_by_id two_requests_db 1 = Some pending_row" by code_simp
  have l2: "leave_by_id two_requests_db 2 = Some second_row" by code_simp
  have e: "employee_id pending_row = employee_id second_row" by code_simp
  have e2: "employee_id pending_row = 2" by code_simp
  have o: "user_by_id two_requests_db (employee_id pending_row) = Some emp_row" by code_simp
  have b: "leave_balance emp_row < days pending_row + days second_row" by code_simp
  have b1: "days pending_row \<le> leave_balance emp_row" by code_simp
  have b2: "days second_row \<le> leave_balance emp_row" by code_simp
  have d: "user_ids_distinct two_requests_db" by code_simp
  have g: "balances_nonneg two_requests_db" by code_simp
  have a: "form_get approve_request ''action'' = Some ''approve''" by code_simp
  have j: "form_get reject_request ''action'' = Some ''reject''" by code_simp
  have v: "emp_row\<lparr>leave_balance := leave_balance emp_row - days pending_row - days second_row\<rparr>
             = emp_row\<lparr>leave_balance := - 2\<rparr>" by code_simp
  have s: "\<not> (approved (fst ?S) \<and> approved (fst (snd ?S))) \<and> balances_nonneg (snd (snd ?S))"
    using reviews_without_isolation [where ev = demo_env and db = two_requests_db
            and ?i1.0 = 1 and ?i2.0 = 2 and ?l1.0 = pending_row and ?l2.0 = second_row
            and emp = emp_row and ?rq1.0 = approve_request and ?rq2.0 = approve_request
            and ?ss1.0 = hr_session and ?ss2.0 = hr_session
            and ?r1.0 = "fst ?S" and ?r2.0 = "fst (snd ?S)" and ?db2.0 = "snd (snd ?S)"]
          n l1 l2 e o b d g
    by simp
  have i: "approved (fst ?I) \<and> approved (fst (snd ?I))
         \<and> user_by_id (snd (snd ?I)) 2 = Some (emp_row\<lparr>leave_balance := - 2\<rparr>)"
    using reviews_without_isolation [where ev = demo_env and db = two_requests_db
            and ?i1.0 = 1 and ?i2.0 = 2 and ?l1.0 = pending_row and ?l2.0 = second_row
            and emp = emp_row and ?rq1.0 = approve_request and ?rq2.0 = approve_request
            and ?ss1.0 = hr_session and ?ss2.0 = hr_session
            and ?u1.0 = hr_row and ?u2.0 = hr_row
            and ?r1.0 = "fst ?I" and ?r2.0 = "fst (snd ?I)" and ?db2.0 = "snd (snd ?I)"]
          u r n l1 l2 e e2 o b1 b2 a v
    by simp
  have k: "approved (fst ?R) \<and> rejected (fst (snd ?R))
         \<and> map_option status (leave_by_id (snd (snd ?R)) 1) = Some ''Rejected''"
    using reviews_without_isolation [where ev = demo_env and db = two_requests_db
            and ?i1.0 = 1 and ?l1.0 = pending_row
            and emp = emp_row and ?rq1.0 = approve_request and ?rq2.0 = reject_request
            and ?ss1.0 = hr_session and ?ss2.0 = hr_session
            and ?u1.0 = hr_row and ?u2.0 = hr_row
            and ?r1.0 = "fst ?R" and ?r2.0 = "fst (snd ?R)" and ?db2.0 = "snd (snd ?R)"]
          u r l1 o b1 a j
    by simp
  show ?thesis
    using b d g s i k by simp
qed

end
